theory Spec2Isabelle
  imports Main
begin

section \<open>Values exchanged with the remote services\<close>

text \<open>
  The library wraps three remote services (KeyProtect, AppID, Cloudant) behind HTTP
  clients. The services themselves are not part of the repository, so the model keeps
  them as an environment: a function from a request and the remote state to a reply and
  the next remote state. A reply is the settled result of one client call (after the
  retry policy of the client has run): either the response data of a 2xx response, or a
  rejection carrying the status of the response (none when no response arrived) and the
  text that the \<^verbatim>\<open>failureReasons\<close> computation of the catch blocks reads from it.
\<close>

datatype http_method = GET | POST | PUT | DELETE | HEAD | OPTIONS

text \<open>A JavaScript value handed over as key payload; only its truthiness is inspected.\<close>

datatype payload = Undefined | Str string | Obj "(string \<times> string) list"

fun truthy :: "payload \<Rightarrow> bool" where
  "truthy Undefined = False"
| "truthy (Str s) = (s \<noteq> [])"
| "truthy (Obj fields) = True"

text \<open>
  \<^verbatim>\<open>Buffer.from(JSON.stringify(p)).toString('base64')\<close> is kept symbolic as
  \<open>Base64 p\<close>; \<open>Malformed\<close> is a stored blob whose decoded text is not JSON.
\<close>

datatype blob = Base64 payload | Malformed

text \<open>
  A key resource of KeyProtect. \<open>creationDate\<close> is the instant that
  \<^verbatim>\<open>moment(key.creationDate)\<close> denotes, in milliseconds since the epoch;
  \<open>key_payload\<close> is \<open>None\<close> when the resource carries no (or an empty) payload.
\<close>

record key =
  key_id :: string
  key_name :: string
  creationDate :: int
  key_payload :: "blob option"

record user =
  user_id :: string
  email :: string

text \<open>
  The \<^verbatim>\<open>raxConfig\<close> object a client carries, with the fields the source sets;
  a field the source leaves out is \<open>None\<close>.
\<close>

datatype backoff = Exponential | Static | Linear

record raxConfig =
  retry :: "nat option"
  backoffType :: "backoff option"
  noResponseRetries :: "nat option"
  statusCodesToRetry :: "(nat \<times> nat) list"
  retryDelay :: "nat option"
  httpMethodsToRetry :: "http_method list option"

text \<open>An axios instance as \<^verbatim>\<open>axios.create\<close> configures it, with its retry configuration.\<close>

record client =
  baseURL :: "string option"
  timeout :: "nat option"
  headers :: "(string \<times> string) list"
  auth :: "(string option \<times> string option) option"
  rax :: raxConfig

text \<open>
  The data a request carries: none, the key resource of createKey (name and encoded
  payload), the login form (user name and password), the new account
  (email, \<^verbatim>\<open>appIDObj.userName\<close>, password), the role ids, and the tenant attribute.
\<close>

datatype body =
    NoBody
  | KeyBody string blob
  | LoginForm string string
  | NewUser string "string option" string
  | RoleIds "string list"
  | TenantAttr "string option"

text \<open>
  Modelled from the spec: cloud-iam-helper.js is not among the sources. Its
  \<^verbatim>\<open>getCloudIAMToken(apikey)\<close> is the Credential Provider of the specification
  (sections 2 and 6): an asynchronous call that supplies a bearer token for an API key
  and may itself fail. It is the request \<open>IamToken\<close> to the environment, answered with a
  token or rejected. \<open>Http\<close> is a request sent through an axios client, and
  \<open>SessionInformation\<close> the \<^verbatim>\<open>getSessionInformation\<close> call of the Cloudant SDK.
\<close>

datatype request =
    IamToken "string option"
  | Http client http_method string body
  | SessionInformation "string option"

text \<open>
  The data of a response, as far as the library reads it: a token, the
  \<^verbatim>\<open>resources\<close> of KeyProtect, the ids of the \<^verbatim>\<open>roles\<close> and the \<^verbatim>\<open>users\<close> of
  AppID; \<open>NoData\<close> is a response with none of these.
\<close>

datatype data =
    NoData
  | Token string
  | Resources "key list"
  | Roles "string list"
  | Users "user list"

datatype reply = Ok data | Fail "nat option" string

type_synonym 'st env = "request \<Rightarrow> 'st \<Rightarrow> reply \<times> 'st"

datatype level = DEBUG | INFO | WARN | ERROR

text \<open>
  What is thrown: an \<^verbatim>\<open>Error\<close> with its message (also a TypeError), the rejection
  of a call with the status of its response and its failure text, the error object of
  \<^verbatim>\<open>loginAppID\<close> with its status and message, and the object literal
  \<^verbatim>\<open>{ status: 500, message }\<close> of \<^verbatim>\<open>getInstance\<close>.
\<close>

datatype error =
    Error string
  | Rejected "nat option" string
  | LoginError nat string
  | Status500 string

text \<open>
  The world a workflow runs in: the remote state, the client calls settled so far with
  their replies, and the lines written to the logger.
\<close>

record 'st world =
  remote :: 'st
  calls :: "(request \<times> reply) list"
  logs :: "(level \<times> string) list"

definition call :: "'st env \<Rightarrow> request \<Rightarrow> 'st world \<Rightarrow> reply \<times> 'st world" where
  "call env rq w =
     (case env rq (remote w) of
        (rp, s) \<Rightarrow> (rp, w\<lparr>remote := s, calls := calls w @ [(rq, rp)]\<rparr>))"

definition log_at :: "level \<Rightarrow> string \<Rightarrow> 'st world \<Rightarrow> 'st world" where
  "log_at l msg w = w\<lparr>logs := logs w @ [(l, msg)]\<rparr>"

text \<open>The text a template literal prints for a number, and a quoted name.\<close>

fun dec :: "nat \<Rightarrow> string" where
  "dec n = (if n < 10 then [char_of (48 + n)]
            else dec (n div 10) @ [char_of (48 + n mod 10)])"

declare dec.simps [simp del]

definition quoted :: "string \<Rightarrow> string" where
  "quoted s = [CHR 0x27] @ s @ [CHR 0x27]"

text \<open>
  The \<^verbatim>\<open>failureReasons\<close> text every catch block of keyprotect-helper.js computes
  from the caught error: the JSON of the response's resources when there is one,
  otherwise the error's message.
\<close>

fun failureReasons :: "error \<Rightarrow> string" where
  "failureReasons (Error m) = m"
| "failureReasons (Rejected st r) = r"
| "failureReasons (LoginError st m) = m"
| "failureReasons (Status500 m) = m"

text \<open>The value of \<^verbatim>\<open>${token}\<close> in the Authorization header.\<close>

fun token_of :: "data \<Rightarrow> string" where
  "token_of (Token t) = t"
| "token_of d = ''undefined''"

section \<open>keyprotect-helper.js\<close>

text \<open>
  The module variable \<^verbatim>\<open>keyProtectObj\<close>, which \<^verbatim>\<open>setConfig\<close> assigns and the
  functions read, is the parameter \<open>c\<close> of the functions below. A field that was never
  set is \<open>None\<close>.
\<close>

record keyProtectObj =
  url :: "string option"
  instanceID :: "string option"
  apikey :: "string option"
  retries :: "nat option"
  retryDelay :: "nat option"
  timeout :: "nat option"

text \<open>\<^verbatim>\<open>!v\<close> for a string-valued and for a number-valued configuration field.\<close>

definition falsy_str :: "string option \<Rightarrow> bool" where
  "falsy_str v = (case v of None \<Rightarrow> True | Some s \<Rightarrow> s = [])"

definition falsy_num :: "nat option \<Rightarrow> bool" where
  "falsy_num v = (case v of None \<Rightarrow> True | Some n \<Rightarrow> n = 0)"

definition missingVar :: "keyProtectObj \<Rightarrow> string option" where
  "missingVar c =
     (if falsy_str (url c) then Some ''KEYPROTECT_URL''
      else if falsy_str (instanceID c) then Some ''KEYPROTECT_GUID''
      else if falsy_str (apikey c) then Some ''KEYPROTECT_APIKEY''
      else if falsy_num (retries c) then Some ''KEYPROTECT_RETRIES''
      else if falsy_num (retryDelay c) then Some ''KEYPROTECT_RETRYDELAY''
      else if falsy_num (timeout c) then Some ''KEYPROTECT_TIMEOUT''
      else None)"

definition validateConfig :: "keyProtectObj \<Rightarrow> error + unit" where
  "validateConfig c =
     (case missingVar c of
        Some v \<Rightarrow> Inl (Error (''Invalid KeyProtect config: missing variable '' @ quoted v))
      | None \<Rightarrow> Inr ())"

text \<open>The text a template literal prints for a possibly undefined string.\<close>

definition str_of :: "string option \<Rightarrow> string" where
  "str_of v = (case v of None \<Rightarrow> ''undefined'' | Some s \<Rightarrow> s)"

definition keyProtectClient :: "keyProtectObj \<Rightarrow> string \<Rightarrow> client" where
  "keyProtectClient c token =
     \<lparr>baseURL = url c,
      client.timeout = keyProtectObj.timeout c,
      headers = [(''Accept'', ''application/vnd.ibm.kms.key+json''),
                 (''Authorization'', ''Bearer '' @ token),
                 (''bluemix-instance'', str_of (instanceID c))],
      auth = None,
      rax = \<lparr>retry = retries c,
              backoffType = None,
              noResponseRetries = retries c,
              statusCodesToRetry = [(500, 599)],
              raxConfig.retryDelay = keyProtectObj.retryDelay c,
              httpMethodsToRetry = None\<rparr>\<rparr>"

text \<open>The message of the TypeError raised by \<^verbatim>\<open>keysArray.length\<close> on a response
  without a resources array.\<close>

definition typeError_length :: string where
  "typeError_length = ''Cannot read properties of undefined (reading '' @ quoted ''length'' @ '')''"

definition getAllKeysHelper ::
  "'st env \<Rightarrow> keyProtectObj \<Rightarrow> client \<Rightarrow> 'st world \<Rightarrow> key list \<times> 'st world" where
  "getAllKeysHelper env c cl w =
     (case validateConfig c of
        Inl e \<Rightarrow>
          ([], log_at WARN (''Failed to retrieve keys from KeyProtect: '' @ failureReasons e) w)
      | Inr u \<Rightarrow>
          (case call env (Http cl GET [] NoBody) w of
             (Fail st r, w1) \<Rightarrow>
               ([], log_at WARN (''Failed to retrieve keys from KeyProtect: '' @ r) w1)
           | (Ok (Resources keysArray), w1) \<Rightarrow>
               (keysArray,
                log_at INFO (''Successfully retrieved '' @ dec (length keysArray)
                               @ '' from KeyProtect'') w1)
           | (Ok d, w1) \<Rightarrow>
               ([], log_at WARN (''Failed to retrieve keys from KeyProtect: ''
                                   @ typeError_length) w1)))"

text \<open>
  \<^verbatim>\<open>getAllKeys(client)\<close>: without a client the token is acquired first, outside
  any try block, so a failing credential provider rejects the call.
\<close>

definition getAllKeys ::
  "'st env \<Rightarrow> keyProtectObj \<Rightarrow> client option \<Rightarrow> 'st world
     \<Rightarrow> (error + key list) \<times> 'st world" where
  "getAllKeys env c client w =
     (case client of
        None \<Rightarrow>
          (case call env (IamToken (apikey c)) w of
             (Fail st r, w1) \<Rightarrow> (Inl (Rejected st r), w1)
           | (Ok d, w1) \<Rightarrow>
               (case getAllKeysHelper env c (keyProtectClient c (token_of d)) w1 of
                  (ks, w2) \<Rightarrow> (Inr ks, w2)))
      | Some cl \<Rightarrow>
          (case getAllKeysHelper env c cl w of (ks, w1) \<Rightarrow> (Inr ks, w1)))"

definition getKeysByName ::
  "'st env \<Rightarrow> keyProtectObj \<Rightarrow> client option \<Rightarrow> string \<Rightarrow> 'st world
     \<Rightarrow> key list \<times> 'st world" where
  "getKeysByName env c client keyName w =
     (case validateConfig c of
        Inl e \<Rightarrow>
          ([], log_at WARN (''Failed to retrieve key ids for '' @ keyName
                              @ '' from KeyProtect: '' @ failureReasons e) w)
      | Inr u \<Rightarrow>
          (case getAllKeys env c client w of
             (Inl e, w1) \<Rightarrow>
               ([], log_at WARN (''Failed to retrieve key ids for '' @ keyName
                                   @ '' from KeyProtect: '' @ failureReasons e) w1)
           | (Inr response, w1) \<Rightarrow>
               (let filteredKeys = filter (\<lambda>k. key_name k = keyName) response
                in (filteredKeys,
                    log_at INFO (''Successfully retrieved '' @ dec (length filteredKeys)
                                   @ '' key id(s) for name = '' @ keyName
                                   @ '' from KeyProtect'') w1))))"

text \<open>
  The exported functions are a try block with a catch block. The model keeps the two
  apart: \<open>f_try\<close> is the try block of \<open>f\<close>, ending in the value it returns or the error
  thrown inside it, and \<open>f\<close> applies the catch block to that error.
\<close>

definition deleteKey_try ::
  "'st env \<Rightarrow> keyProtectObj \<Rightarrow> string \<Rightarrow> 'st world \<Rightarrow> (error + unit) \<times> 'st world" where
  "deleteKey_try env c keyID w =
     (case validateConfig c of
        Inl e \<Rightarrow> (Inl e, w)
      | Inr u \<Rightarrow>
          (case call env (IamToken (apikey c)) w of
             (Fail st r, w1) \<Rightarrow> (Inl (Rejected st r), w1)
           | (Ok d, w1) \<Rightarrow>
               (case call env (Http (keyProtectClient c (token_of d)) DELETE keyID NoBody) w1 of
                  (Fail st r, w2) \<Rightarrow> (Inl (Rejected st r), w2)
                | (Ok d2, w2) \<Rightarrow>
                    (Inr (), log_at INFO (''Successfully deleted key '' @ keyID
                                            @ '' in KeyProtect'') w2))))"

definition deleteKey ::
  "'st env \<Rightarrow> keyProtectObj \<Rightarrow> string \<Rightarrow> 'st world \<Rightarrow> (error + unit) \<times> 'st world" where
  "deleteKey env c keyID w =
     (case deleteKey_try env c keyID w of
        (Inl e, w') \<Rightarrow>
          (let errMsg = ''Failed to delete key '' @ keyID @ '' in KeyProtect: '' @ failureReasons e
           in (Inl (Error errMsg), log_at ERROR errMsg w'))
      | (Inr u, w') \<Rightarrow> (Inr (), w'))"

text \<open>
  The loop of \<^verbatim>\<open>getNewestKeyIDByName\<close>, as a recursion over the rest of
  \<^verbatim>\<open>keyList\<close> that passes on the loop variables \<^verbatim>\<open>newestKeyID\<close> and
  \<^verbatim>\<open>newestCreationDate\<close> and ends with their final values. The date starts at
  \<^verbatim>\<open>moment(0)\<close>, the epoch, and \<^verbatim>\<open>isBefore\<close> is strict.
\<close>

fun newestLoop ::
  "'st env \<Rightarrow> keyProtectObj \<Rightarrow> string \<Rightarrow> key list \<Rightarrow> string \<Rightarrow> int \<Rightarrow> 'st world
     \<Rightarrow> (error + string \<times> int) \<times> 'st world" where
  "newestLoop env c searchName [] newestKeyID newestCreationDate w =
     (Inr (newestKeyID, newestCreationDate), w)"
| "newestLoop env c searchName (k # ks) newestKeyID newestCreationDate w =
     (if key_name k = searchName \<and> newestCreationDate < creationDate k then
        (if newestKeyID \<noteq> [] then
           (case deleteKey env c newestKeyID
                   (log_at WARN (''Attempting to delete older key '' @ newestKeyID
                                   @ '' with name '' @ searchName @ '' in KeyProtect'') w) of
              (Inl e, w1) \<Rightarrow> (Inl e, w1)
            | (Inr u, w1) \<Rightarrow> newestLoop env c searchName ks (key_id k) (creationDate k) w1)
         else newestLoop env c searchName ks (key_id k) (creationDate k) w)
      else newestLoop env c searchName ks newestKeyID newestCreationDate w)"

definition getNewestKeyIDByName ::
  "'st env \<Rightarrow> keyProtectObj \<Rightarrow> client option \<Rightarrow> string \<Rightarrow> 'st world
     \<Rightarrow> (error + string) \<times> 'st world" where
  "getNewestKeyIDByName env c client searchName w =
     (case getKeysByName env c client searchName w of
        (keyList, w1) \<Rightarrow>
          (case newestLoop env c searchName keyList [] 0 w1 of
             (Inl e, w2) \<Rightarrow> (Inl e, w2)
           | (Inr (newestKeyID, newestCreationDate), w2) \<Rightarrow> (Inr newestKeyID, w2)))"

definition parseKeyPayload :: "data \<Rightarrow> 'st world \<Rightarrow> payload \<times> 'st world" where
  "parseKeyPayload d w =
     (case d of
        Resources (r # rs) \<Rightarrow>
          (case key_payload r of
             Some (Base64 p) \<Rightarrow> (p, log_at DEBUG ''Successfully parsed key from KeyProtect'' w)
           | Some Malformed \<Rightarrow>
               (Str [], log_at WARN ''Failed to parse key from KeyProtect: SyntaxError'' w)
           | None \<Rightarrow> (Str [], log_at WARN ''Payload not found for key from KeyProtect'' w))
      | _ \<Rightarrow> (Str [], log_at WARN ''Payload not found for key from KeyProtect'' w))"

definition parseKeyID :: "data \<Rightarrow> 'st world \<Rightarrow> string \<times> 'st world" where
  "parseKeyID d w =
     (case d of
        Resources (r # rs) \<Rightarrow>
          (if key_id r \<noteq> [] then (key_id r, w)
           else ([], log_at WARN ''ID not found for key from KeyProtect'' w))
      | _ \<Rightarrow> ([], log_at WARN ''ID not found for key from KeyProtect'' w))"

definition getKeyByID_try ::
  "'st env \<Rightarrow> keyProtectObj \<Rightarrow> string \<Rightarrow> 'st world \<Rightarrow> (error + payload) \<times> 'st world" where
  "getKeyByID_try env c keyID w =
     (case validateConfig c of
        Inl e \<Rightarrow> (Inl e, w)
      | Inr u \<Rightarrow>
          (case call env (IamToken (apikey c)) w of
             (Fail st r, w1) \<Rightarrow> (Inl (Rejected st r), w1)
           | (Ok d, w1) \<Rightarrow>
               (case call env (Http (keyProtectClient c (token_of d)) GET keyID NoBody) w1 of
                  (Fail st r, w2) \<Rightarrow> (Inl (Rejected st r), w2)
                | (Ok getKeyResponse, w2) \<Rightarrow>
                    (case parseKeyPayload getKeyResponse
                            (log_at INFO (''Successfully retrieved key '' @ keyID
                                            @ '' from KeyProtect'') w2) of
                       (p, w3) \<Rightarrow> (Inr p, w3)))))"

definition getKeyByID ::
  "'st env \<Rightarrow> keyProtectObj \<Rightarrow> string \<Rightarrow> 'st world \<Rightarrow> payload \<times> 'st world" where
  "getKeyByID env c keyID w =
     (case getKeyByID_try env c keyID w of
        (Inl e, w') \<Rightarrow>
          (Str [], log_at WARN (''Failed to retrieve key '' @ keyID @ '' from KeyProtect: ''
                                  @ failureReasons e) w')
      | (Inr p, w') \<Rightarrow> (p, w'))"

definition getNewestKeyByName_try ::
  "'st env \<Rightarrow> keyProtectObj \<Rightarrow> string \<Rightarrow> 'st world \<Rightarrow> (error + payload) \<times> 'st world" where
  "getNewestKeyByName_try env c keyName w =
     (case validateConfig c of
        Inl e \<Rightarrow> (Inl e, w)
      | Inr u \<Rightarrow>
          (case call env (IamToken (apikey c)) w of
             (Fail st r, w1) \<Rightarrow> (Inl (Rejected st r), w1)
           | (Ok d, w1) \<Rightarrow>
               (case getNewestKeyIDByName env c (Some (keyProtectClient c (token_of d)))
                       keyName w1 of
                  (Inl e, w2) \<Rightarrow> (Inl e, w2)
                | (Inr keyID, w2) \<Rightarrow>
                    (if keyID = [] then
                       (Inr (Str []),
                        log_at WARN (''Key '' @ keyName @ '' not found in KeyProtect'') w2)
                     else
                       (case call env (Http (keyProtectClient c (token_of d)) GET keyID NoBody)
                               w2 of
                          (Fail st r, w3) \<Rightarrow> (Inl (Rejected st r), w3)
                        | (Ok getKeyResponse, w3) \<Rightarrow>
                            (case parseKeyPayload getKeyResponse
                                    (log_at INFO (''Successfully retrieved newest key for name = ''
                                                    @ keyName @ '' from KeyProtect (id = ''
                                                    @ keyID @ '')'') w3) of
                               (p, w4) \<Rightarrow> (Inr p, w4)))))))"

definition getNewestKeyByName ::
  "'st env \<Rightarrow> keyProtectObj \<Rightarrow> string \<Rightarrow> 'st world \<Rightarrow> payload \<times> 'st world" where
  "getNewestKeyByName env c keyName w =
     (case getNewestKeyByName_try env c keyName w of
        (Inl e, w') \<Rightarrow>
          (Str [], log_at WARN (''Failed to retrieve key '' @ keyName @ '' from KeyProtect: ''
                                  @ failureReasons e) w')
      | (Inr p, w') \<Rightarrow> (p, w'))"

definition createKey_try ::
  "'st env \<Rightarrow> keyProtectObj \<Rightarrow> string \<Rightarrow> payload \<Rightarrow> 'st world
     \<Rightarrow> (error + string) \<times> 'st world" where
  "createKey_try env c keyName keyPayload w =
     (case validateConfig c of
        Inl e \<Rightarrow> (Inl e, w)
      | Inr u \<Rightarrow>
          (if keyName = [] then (Inl (Error ''keyName is empty''), w)
           else if \<not> truthy keyPayload then (Inl (Error ''keyPayload is empty''), w)
           else
             (case call env (IamToken (apikey c))
                     (log_at DEBUG
                        ''Attempting to check for existing key (before creating new key)'' w) of
                (Fail st r, w1) \<Rightarrow> (Inl (Rejected st r), w1)
              | (Ok d, w1) \<Rightarrow>
                  (case getNewestKeyIDByName env c (Some (keyProtectClient c (token_of d)))
                          keyName w1 of
                     (Inl e, w2) \<Rightarrow> (Inl e, w2)
                   | (Inr existingKeyID, w2) \<Rightarrow>
                       (case (if existingKeyID \<noteq> [] then
                                deleteKey env c existingKeyID
                                  (log_at DEBUG
                                     ''Existing key found, attempting to delete (before creating new key)''
                                     w2)
                              else (Inr (), w2)) of
                          (Inl e, w3) \<Rightarrow> (Inl e, w3)
                        | (Inr u3, w3) \<Rightarrow>
                            (case call env (Http (keyProtectClient c (token_of d)) POST []
                                              (KeyBody keyName (Base64 keyPayload))) w3 of
                               (Fail st r, w4) \<Rightarrow> (Inl (Rejected st r), w4)
                             | (Ok createResponse, w4) \<Rightarrow>
                                 (case parseKeyID createResponse w4 of
                                    (keyID, w5) \<Rightarrow>
                                      (Inr keyID,
                                       log_at INFO (''Successfully created key '' @ keyID
                                                      @ '' in KeyProtect'') w5))))))))"

definition createKey ::
  "'st env \<Rightarrow> keyProtectObj \<Rightarrow> string \<Rightarrow> payload \<Rightarrow> 'st world
     \<Rightarrow> (error + string) \<times> 'st world" where
  "createKey env c keyName keyPayload w =
     (case createKey_try env c keyName keyPayload w of
        (Inl e, w') \<Rightarrow>
          (let errMsg = ''Failed to create key in KeyProtect: '' @ failureReasons e
           in (Inl (Error errMsg), log_at ERROR errMsg w'))
      | (Inr keyID, w') \<Rightarrow> (Inr keyID, w'))"

subsection \<open>A reference KeyProtect service\<close>

text \<open>
  What a workflow leaves in the key store can only be stated against a behaviour of the
  remote service. The reference service holds the key resources in listing order,
  answers every request, lists the whole store, deletes by id (404 when no resource has
  the id) and appends a created resource under a newly minted id.
\<close>

record keyprotect =
  store :: "key list"
  minted :: nat
  now :: int

definition mint :: "nat \<Rightarrow> string" where
  "mint n = ''key-'' @ dec n"

fun keyprotect_service :: "keyprotect env" where
  "keyprotect_service (IamToken k) s = (Ok (Token ''iam-token''), s)"
| "keyprotect_service (Http cl GET path b) s =
     (if path = [] then (Ok (Resources (store s)), s)
      else (case filter (\<lambda>k. key_id k = path) (store s) of
              [] \<Rightarrow> (Fail (Some 404) ''Not Found'', s)
            | r # rs \<Rightarrow> (Ok (Resources [r]), s)))"
| "keyprotect_service (Http cl DELETE path b) s =
     (if path \<in> set (map key_id (store s))
      then (Ok NoData, s\<lparr>store := filter (\<lambda>k. key_id k \<noteq> path) (store s)\<rparr>)
      else (Fail (Some 404) ''Not Found'', s))"
| "keyprotect_service (Http cl POST path (KeyBody nm b)) s =
     (Ok (Resources [\<lparr>key_id = mint (minted s), key_name = nm, creationDate = now s,
                       key_payload = Some b\<rparr>]),
      s\<lparr>store := store s @ [\<lparr>key_id = mint (minted s), key_name = nm,
                                 creationDate = now s, key_payload = Some b\<rparr>],
        minted := Suc (minted s), now := now s + 1\<rparr>)"
| "keyprotect_service rq s = (Fail (Some 400) ''Bad Request'', s)"

text \<open>The ids for which a DELETE request is among the calls.\<close>

fun delete_target :: "request \<Rightarrow> string option" where
  "delete_target (Http cl m path b) = (if m = DELETE then Some path else None)"
| "delete_target rq = None"

fun delete_targets :: "(request \<times> reply) list \<Rightarrow> string list" where
  "delete_targets [] = []"
| "delete_targets ((rq, rp) # cs) =
     (case delete_target rq of
        None \<Rightarrow> delete_targets cs
      | Some kid \<Rightarrow> kid # delete_targets cs)"

definition start :: "'st \<Rightarrow> 'st world" where
  "start s = \<lparr>remote = s, calls = [], logs = []\<rparr>"

section \<open>The retry policy of the clients\<close>

text \<open>
  Modelled from the spec: the retry engine that \<^verbatim>\<open>rax.attach(client)\<close> installs
  belongs to the HTTP retry library and is not among the sources. Section 4.1 of the
  specification describes it: a request is retried only when no response was received
  or the response status falls in a retryable range, the number of retries is bounded
  by the retry count, the pause between attempts is the fixed \<^verbatim>\<open>retryDelay\<close> under
  the static policy, and on exhaustion the last failure is surfaced. The engine reads
  the \<^verbatim>\<open>raxConfig\<close> of the client. What the library does for a field the source leaves
  unset is a parameter (\<open>rax_defaults\<close>), except the backoff policy, whose default the
  source itself documents: \<^verbatim>\<open>options are 'exponential' (default), 'static' or 'linear'\<close>.
\<close>

record rax_defaults =
  default_retry :: nat
  default_noResponseRetries :: nat
  default_retryDelay :: nat
  default_methods :: "http_method list"

text \<open>What one attempt on the wire brings back.\<close>

datatype response = NoResponse string | Response nat data string

type_synonym 'st wire = "request \<Rightarrow> 'st \<Rightarrow> response \<times> 'st"

definition in_ranges :: "(nat \<times> nat) list \<Rightarrow> nat \<Rightarrow> bool" where
  "in_ranges rs s = list_ex (\<lambda>(lo, hi). lo \<le> s \<and> s \<le> hi) rs"

text \<open>axios resolves a response whose status is 2xx and rejects every other.\<close>

fun resolved :: "response \<Rightarrow> bool" where
  "resolved (NoResponse r) = False"
| "resolved (Response st d r) = (200 \<le> st \<and> st < 300)"

definition retry_count :: "rax_defaults \<Rightarrow> raxConfig \<Rightarrow> nat" where
  "retry_count dflt cfg = (case retry cfg of None \<Rightarrow> default_retry dflt | Some n \<Rightarrow> n)"

definition noResponse_count :: "rax_defaults \<Rightarrow> raxConfig \<Rightarrow> nat" where
  "noResponse_count dflt cfg =
     (case noResponseRetries cfg of None \<Rightarrow> default_noResponseRetries dflt | Some n \<Rightarrow> n)"

definition retry_methods :: "rax_defaults \<Rightarrow> raxConfig \<Rightarrow> http_method list" where
  "retry_methods dflt cfg =
     (case httpMethodsToRetry cfg of None \<Rightarrow> default_methods dflt | Some ms \<Rightarrow> ms)"

definition backoff_policy :: "raxConfig \<Rightarrow> backoff" where
  "backoff_policy cfg = (case backoffType cfg of None \<Rightarrow> Exponential | Some b \<Rightarrow> b)"

text \<open>
  Modelled from the spec: the retry predicate of the retry library (section 4.1).
  \<open>shouldRetry dflt cfg m r n\<close> says whether the rejected attempt \<open>r\<close> of a request with
  verb \<open>m\<close> is retried when \<open>n\<close> retries have been made already: only when no response
  was received or the status is in a retryable range, and only while the retry count
  is not used up.
\<close>

definition shouldRetry :: "rax_defaults \<Rightarrow> raxConfig \<Rightarrow> http_method \<Rightarrow> response \<Rightarrow> nat \<Rightarrow> bool" where
  "shouldRetry dflt cfg m r n =
     (\<not> resolved r \<and> m \<in> set (retry_methods dflt cfg) \<and> n < retry_count dflt cfg \<and>
      (case r of
         NoResponse t \<Rightarrow> n < noResponse_count dflt cfg
       | Response st d t \<Rightarrow> in_ranges (statusCodesToRetry cfg) st))"

text \<open>
  Modelled from the spec: the backoff of the retry library (section 4.1). The pause
  before a retry is the configured delay under the static policy; under the other
  policies it is a delay that the library computes from the number of the retry, kept
  symbolic.
\<close>

datatype pause = Fixed nat | Computed backoff nat

definition pause_before :: "rax_defaults \<Rightarrow> raxConfig \<Rightarrow> nat \<Rightarrow> pause" where
  "pause_before dflt cfg n =
     (case backoff_policy cfg of
        Static \<Rightarrow>
          Fixed (case raxConfig.retryDelay cfg of None \<Rightarrow> default_retryDelay dflt | Some ms \<Rightarrow> ms)
      | Exponential \<Rightarrow> Computed Exponential n
      | Linear \<Rightarrow> Computed Linear n)"

text \<open>
  Modelled from the spec: the retry loop of the retry library (section 4.1). \<open>k\<close>
  bounds the retries still allowed, \<open>n\<close> counts the retries made. Each attempt is sent
  to the wire; the result lists the responses of the attempts in order, the last one
  being the response the request settles with.
\<close>

fun attempts ::
  "rax_defaults \<Rightarrow> 'st wire \<Rightarrow> client \<Rightarrow> http_method \<Rightarrow> string \<Rightarrow> body \<Rightarrow> nat \<Rightarrow> nat \<Rightarrow> 'st
     \<Rightarrow> response list \<times> 'st" where
  "attempts dflt wire cl m path b 0 n s =
     (case wire (Http cl m path b) s of (r, s1) \<Rightarrow> ([r], s1))"
| "attempts dflt wire cl m path b (Suc k) n s =
     (case wire (Http cl m path b) s of
        (r, s1) \<Rightarrow>
          (if shouldRetry dflt (rax cl) m r n then
             (case attempts dflt wire cl m path b k (Suc n) s1 of
                (rs, s2) \<Rightarrow> (r # rs, s2))
           else ([r], s1)))"

definition send_request ::
  "rax_defaults \<Rightarrow> 'st wire \<Rightarrow> client \<Rightarrow> http_method \<Rightarrow> string \<Rightarrow> body \<Rightarrow> 'st
     \<Rightarrow> response list \<times> 'st" where
  "send_request dflt wire cl m path b s =
     attempts dflt wire cl m path b (retry_count dflt (rax cl)) 0 s"

definition pauses :: "rax_defaults \<Rightarrow> client \<Rightarrow> response list \<Rightarrow> pause list" where
  "pauses dflt cl rs = map (pause_before dflt (rax cl)) [0..<length rs - 1]"

fun settle :: "response \<Rightarrow> reply" where
  "settle (NoResponse t) = Fail None t"
| "settle (Response st d t) = (if 200 \<le> st \<and> st < 300 then Ok d else Fail (Some st) t)"

text \<open>
  The environment of the workflows that a wire induces: a client call is settled by
  the last attempt of the engine; the credential provider and the Cloudant SDK are
  asked once.
\<close>

definition settled :: "rax_defaults \<Rightarrow> 'st wire \<Rightarrow> 'st env" where
  "settled dflt wire rq s =
     (case rq of
        Http cl m path b \<Rightarrow>
          (case send_request dflt wire cl m path b s of (rs, s1) \<Rightarrow> (settle (last rs), s1))
      | _ \<Rightarrow> (case wire rq s of (r, s1) \<Rightarrow> (settle r, s1)))"

section \<open>app-id-helper.js\<close>

text \<open>
  The module variable \<^verbatim>\<open>appIDObj\<close> that \<^verbatim>\<open>setConfig\<close> assigns, again a
  parameter of the functions, and the module constants of the retry policy.
\<close>

record appIDObj =
  url :: "string option"
  clientID :: "string option"
  tenantID :: "string option"
  secret :: "string option"
  apikey :: "string option"
  userName :: "string option"
  userTenantID :: "string option"

definition appId_retries :: nat where "appId_retries = 1"
definition appId_retryDelay :: nat where "appId_retryDelay = 3000"
definition appId_timeout :: nat where "appId_timeout = 10000"

text \<open>The server addresses that \<^verbatim>\<open>setConfig\<close> derives from the configuration.\<close>

definition managementServerUrl :: "appIDObj \<Rightarrow> string" where
  "managementServerUrl c =
     str_of (appIDObj.url c) @ ''/management/v4/'' @ str_of (tenantID c)"

definition oauthServerUrl :: "appIDObj \<Rightarrow> string" where
  "oauthServerUrl c = str_of (appIDObj.url c) @ ''/oauth/v4/'' @ str_of (tenantID c)"

definition appId_missingVar :: "appIDObj \<Rightarrow> string option" where
  "appId_missingVar c =
     (if falsy_str (appIDObj.url c) then Some ''APP_ID_URL''
      else if falsy_str (clientID c) then Some ''APP_ID_CLIENT_ID''
      else if falsy_str (tenantID c) then Some ''APP_ID_TENANT_ID''
      else if falsy_str (secret c) then Some ''APP_ID_SECRET''
      else None)"

definition appId_validateConfig :: "appIDObj \<Rightarrow> error + unit" where
  "appId_validateConfig c =
     (case appId_missingVar c of
        Some v \<Rightarrow> Inl (Error (''Invalid AppID config: missing variable '' @ quoted v))
      | None \<Rightarrow> Inr ())"


definition appId_raxConfig :: raxConfig where
  "appId_raxConfig =
     \<lparr>retry = Some appId_retries,
      backoffType = Some Static,
      noResponseRetries = Some appId_retries,
      statusCodesToRetry = [(500, 599)],
      raxConfig.retryDelay = Some appId_retryDelay,
      httpMethodsToRetry = Some [POST, GET, HEAD, PUT]\<rparr>"

definition appIdLoginClient :: "appIDObj \<Rightarrow> client" where
  "appIdLoginClient c =
     \<lparr>baseURL = Some (oauthServerUrl c @ ''/token''),
      client.timeout = Some appId_timeout,
      headers = [(''Content-Type'', ''application/x-www-form-urlencoded''),
                 (''accept'', ''application/json'')],
      auth = Some (clientID c, secret c),
      rax = appId_raxConfig\<rparr>"

text \<open>The text of \<^verbatim>\<open>${error}\<close>: the name of the error and its failure text.\<close>

definition error_text :: "error \<Rightarrow> string" where
  "error_text e = ''Error: '' @ failureReasons e"

text \<open>
  The error object that the catch block of \<^verbatim>\<open>loginAppID\<close> builds and throws, with
  its status and message (its \<^verbatim>\<open>statusText\<close> is left out).
\<close>

fun errorObj :: "error \<Rightarrow> error" where
  "errorObj (Rejected (Some st) t) = LoginError st t"
| "errorObj e = LoginError 500 (failureReasons e)"

definition loginAppID ::
  "'st env \<Rightarrow> appIDObj \<Rightarrow> string \<Rightarrow> string \<Rightarrow> 'st world \<Rightarrow> (error + data) \<times> 'st world" where
  "loginAppID env c username password w =
     (case
        (case appId_validateConfig c of
           Inl e \<Rightarrow> (Inl e, w)
         | Inr u \<Rightarrow>
             (case call env (Http (appIdLoginClient c) POST ''/'' (LoginForm username password))
                     (log_at DEBUG ''Calling AppID to retrieve auth token'' w) of
                (Fail st t, w1) \<Rightarrow> (Inl (Rejected st t), w1)
              | (Ok d, w1) \<Rightarrow>
                  (Inr d, log_at INFO ''Login request to AppID was successful'' w1)))
      of
        (Inl e, w') \<Rightarrow>
          (Inl (errorObj e),
           log_at ERROR (''Login request to AppID failed: '' @ error_text e) w')
      | (Inr d, w') \<Rightarrow> (Inr d, w'))"

text \<open>The axios instance \<^verbatim>\<open>axClient\<close> that \<^verbatim>\<open>appIdMgmtClient\<close> builds around a token.\<close>

definition axClient :: "appIDObj \<Rightarrow> string \<Rightarrow> client" where
  "axClient c token =
     \<lparr>baseURL = Some (managementServerUrl c),
      client.timeout = Some appId_timeout,
      headers = [(''Content-Type'', ''application/json''),
                 (''Accept'', ''application/json''),
                 (''Authorization'', ''Bearer '' @ token)],
      auth = None,
      rax = appId_raxConfig\<rparr>"

definition appIdMgmtClient ::
  "'st env \<Rightarrow> appIDObj \<Rightarrow> 'st world \<Rightarrow> (error + client) \<times> 'st world" where
  "appIdMgmtClient env c w =
     (case appId_validateConfig c of
        Inl e \<Rightarrow> (Inl e, w)
      | Inr u \<Rightarrow>
          (case call env (IamToken (appIDObj.apikey c)) w of
             (Fail st t, w1) \<Rightarrow> (Inl (Rejected st t), w1)
           | (Ok d, w1) \<Rightarrow> (Inr (axClient c (token_of d)), w1)))"

text \<open>The message of the TypeError raised by reading a property of an undefined value.\<close>

definition typeError_of :: "string \<Rightarrow> string" where
  "typeError_of prop = ''Cannot read properties of undefined (reading '' @ quoted prop @ '')''"

definition getAllRolesIds ::
  "'st env \<Rightarrow> client \<Rightarrow> 'st world \<Rightarrow> (error + string list) \<times> 'st world" where
  "getAllRolesIds env cl w =
     (case
        (case call env (Http cl GET ''/roles'' NoBody) (log_at DEBUG ''Getting all roles ids'' w) of
           (Fail st t, w1) \<Rightarrow> (Inl (Rejected st t), w1)
         | (Ok (Roles ids), w1) \<Rightarrow> (Inr ids, w1)
         | (Ok d, w1) \<Rightarrow> (Inl (Error (typeError_of ''map'')), w1))
      of
        (Inl e, w') \<Rightarrow>
          (Inl e, log_at ERROR (''Failed to get roles from AppID: '' @ error_text e) w')
      | (Inr ids, w') \<Rightarrow> (Inr ids, w'))"

definition createUserCloudDirectory ::
  "'st env \<Rightarrow> appIDObj \<Rightarrow> string \<Rightarrow> string \<Rightarrow> client \<Rightarrow> 'st world
     \<Rightarrow> (error + unit) \<times> 'st world" where
  "createUserCloudDirectory env c username password cl w =
     (case call env (Http cl POST ''/cloud_directory/Users''
                       (NewUser username (userName c) password))
             (log_at DEBUG ''Creating new user in Cloud Directory'' w) of
        (Fail st t, w1) \<Rightarrow>
          (Inl (Rejected st t),
           log_at ERROR (''Failed to create user in cloud directory: ''
                           @ error_text (Rejected st t)) w1)
      | (Ok d, w1) \<Rightarrow> (Inr (), w1))"

definition activateNewUserProfile ::
  "'st env \<Rightarrow> appIDObj \<Rightarrow> string \<Rightarrow> string \<Rightarrow> client \<Rightarrow> 'st world
     \<Rightarrow> (error + string) \<times> 'st world" where
  "activateNewUserProfile env c username password cl w =
     (case
        (case loginAppID env c username password
                (log_at DEBUG ''Activating new user profile'' w) of
           (Inl e, w1) \<Rightarrow> (Inl e, w1)
         | (Inr d, w1) \<Rightarrow>
             (case call env (Http cl GET ''/users'' NoBody) w1 of
                (Fail st t, w2) \<Rightarrow> (Inl (Rejected st t), w2)
              | (Ok (Users us), w2) \<Rightarrow>
                  (case find (\<lambda>u. email u = username) us of
                     None \<Rightarrow> (Inl (Error (typeError_of ''id'')), w2)
                   | Some u \<Rightarrow> (Inr (user_id u), w2))
              | (Ok d2, w2) \<Rightarrow> (Inl (Error (typeError_of ''find'')), w2)))
      of
        (Inl e, w') \<Rightarrow>
          (Inl e, log_at ERROR (''Failed to get new user ID: '' @ error_text e) w')
      | (Inr newUserId, w') \<Rightarrow> (Inr newUserId, w'))"

definition updateUserRoles ::
  "'st env \<Rightarrow> string list \<Rightarrow> string \<Rightarrow> client \<Rightarrow> 'st world \<Rightarrow> (error + unit) \<times> 'st world" where
  "updateUserRoles env roles newUserId cl w =
     (case call env (Http cl PUT (''/users/'' @ newUserId @ ''/roles'') (RoleIds roles))
             (log_at DEBUG ''Updating new user roles'' w) of
        (Fail st t, w1) \<Rightarrow>
          (Inl (Rejected st t),
           log_at ERROR (''Failed to update roles: '' @ error_text (Rejected st t)) w1)
      | (Ok d, w1) \<Rightarrow> (Inr (), w1))"

definition updateUserAttributes ::
  "'st env \<Rightarrow> appIDObj \<Rightarrow> string \<Rightarrow> client \<Rightarrow> 'st world \<Rightarrow> (error + unit) \<times> 'st world" where
  "updateUserAttributes env c newUserId cl w =
     (case call env (Http cl PUT (''/users/'' @ newUserId @ ''/profile'')
                       (TenantAttr (userTenantID c)))
             (log_at DEBUG ''Updating new user attributes'' w) of
        (Fail st t, w1) \<Rightarrow>
          (Inl (Rejected st t),
           log_at ERROR (''Failed to update attributes: '' @ error_text (Rejected st t)) w1)
      | (Ok d, w1) \<Rightarrow> (Inr (), w1))"

text \<open>
  \<^verbatim>\<open>existUserCheckFunc\<close> returns the caught error of the provisioning sequence, or
  nothing (\<open>None\<close>) when it ran through or the first login succeeded.
\<close>

definition existUserCheckFunc ::
  "'st env \<Rightarrow> appIDObj \<Rightarrow> string \<Rightarrow> string \<Rightarrow> 'st world \<Rightarrow> error option \<times> 'st world" where
  "existUserCheckFunc env c username password w =
     (case loginAppID env c username password
             (log_at DEBUG ''Trying to login with current credentials''
                (log_at DEBUG ''Exist user check starting'' w)) of
        (Inr d, w1) \<Rightarrow> (None, w1)
      | (Inl e, w1) \<Rightarrow>
          (case appIdMgmtClient env c (log_at WARN ''Login failed, creating new user'' w1) of
             (Inl e2, w2) \<Rightarrow> (Some e2, w2)
           | (Inr cl, w2) \<Rightarrow>
               (case getAllRolesIds env cl w2 of
                  (Inl e3, w3) \<Rightarrow> (Some e3, w3)
                | (Inr roles, w3) \<Rightarrow>
                    (case createUserCloudDirectory env c username password cl w3 of
                       (Inl e4, w4) \<Rightarrow> (Some e4, w4)
                     | (Inr u4, w4) \<Rightarrow>
                         (case activateNewUserProfile env c username password cl w4 of
                            (Inl e5, w5) \<Rightarrow> (Some e5, w5)
                          | (Inr newUserId, w5) \<Rightarrow>
                              (case updateUserRoles env roles newUserId cl w5 of
                                 (Inl e6, w6) \<Rightarrow> (Some e6, w6)
                               | (Inr u6, w6) \<Rightarrow>
                                   (case updateUserAttributes env c newUserId cl w6 of
                                      (Inl e7, w7) \<Rightarrow> (Some e7, w7)
                                    | (Inr u7, w7) \<Rightarrow> (None, w7))))))))"

definition existUserCheck ::
  "'st env \<Rightarrow> appIDObj \<Rightarrow> string \<Rightarrow> string \<Rightarrow> 'st world \<Rightarrow> 'st world" where
  "existUserCheck env c username password w =
     (case existUserCheckFunc env c username password w of
        (Some e, w1) \<Rightarrow> log_at ERROR (''Login was not successful! '' @ error_text e) w1
      | (None, w1) \<Rightarrow> log_at INFO ''Login was successful!'' w1)"

section \<open>cloudant-helper.js\<close>

record connection =
  account :: "string option"
  iamApiKey :: "string option"
  url :: "string option"
  username :: "string option"
  password :: "string option"
  proxyUrl :: "string option"

record cloudantDataObj =
  connection :: "connection option"
  dbPartitionKey :: "string option"

datatype authenticator = IamAuthenticator string | BasicAuthenticator string string

record cloudantV1 =
  authenticator :: authenticator
  serviceUrl :: "string option"

text \<open>
  The state of the module: the variables \<^verbatim>\<open>cloudantObj\<close> and \<^verbatim>\<open>instance\<close> (here \<open>instance'\<close>),
  and the store of the \<^verbatim>\<open>CloudantHelperLib\<close> objects constructed so far. An object
  is known by its address; its only field is \<^verbatim>\<open>cloudant\<close>. Addresses below
  \<open>allocated\<close> are in use.
\<close>

record cloudant_module =
  cloudantObj :: "cloudantDataObj option"
  instance' :: "nat option"
  cloudant :: "nat \<Rightarrow> cloudantV1 option"
  allocated :: nat
  module_logs :: "(level \<times> string) list"

definition module_start :: cloudant_module where
  "module_start =
     \<lparr>cloudantObj = None, instance' = None, cloudant = (\<lambda>a. None), allocated = 0,
      module_logs = []\<rparr>"

definition module_log :: "level \<Rightarrow> string \<Rightarrow> cloudant_module \<Rightarrow> cloudant_module" where
  "module_log l msg m = m\<lparr>module_logs := module_logs m @ [(l, msg)]\<rparr>"

definition initCloudant :: "cloudant_module \<Rightarrow> (error + cloudantV1) \<times> cloudant_module" where
  "initCloudant m =
     (case cloudantObj m of
        None \<Rightarrow> (Inl (Error (typeError_of ''connection'')), m)
      | Some obj \<Rightarrow>
          (case connection obj of
             None \<Rightarrow> (Inl (Error ''Missing DB connection configuration''), m)
           | Some conn \<Rightarrow>
               (if \<not> falsy_str (account conn) \<and> \<not> falsy_str (iamApiKey conn) then
                  (Inr \<lparr>authenticator = IamAuthenticator (str_of (iamApiKey conn)),
                        serviceUrl = connection.url conn\<rparr>,
                   module_log INFO ''Use IAM auth for DB connection'' m)
                else if \<not> falsy_str (connection.url conn) \<and> \<not> falsy_str (username conn)
                        \<and> \<not> falsy_str (password conn) then
                  (Inr \<lparr>authenticator =
                          BasicAuthenticator (str_of (username conn)) (str_of (password conn)),
                        serviceUrl = (if \<not> falsy_str (proxyUrl conn) then proxyUrl conn
                                      else connection.url conn)\<rparr>,
                   module_log INFO ''Use legacy auth for DB connection'' m)
                else (Inl (Error ''Missing DB credentials''), m))))"

definition new_CloudantHelperLib :: "cloudant_module \<Rightarrow> nat \<times> cloudant_module" where
  "new_CloudantHelperLib m =
     (allocated m, m\<lparr>cloudant := (cloudant m)(allocated m := None),
                    allocated := Suc (allocated m)\<rparr>)"

text \<open>
  \<^verbatim>\<open>getInstance(cloudantDataObj)\<close>. The argument is \<open>None\<close> when the call passes
  \<^verbatim>\<open>undefined\<close> or \<^verbatim>\<open>null\<close>, or no argument at all. The first statement,
  \<^verbatim>\<open>cloudantObj = Object.assign(cloudantDataObj)\<close>, then throws the TypeError
  \<open>cannot_convert\<close>, before \<^verbatim>\<open>cloudantObj\<close> is assigned and before \<^verbatim>\<open>instance\<close>
  is examined; on an object it returns that object. \<open>not_initialized\<close> is the
  \<^verbatim>\<open>errMsg\<close> of the object that is thrown with status 500.
\<close>

definition cannot_convert :: string where
  "cannot_convert = ''Cannot convert undefined or null to object''"

definition not_initialized :: string where
  "not_initialized = ''Cloudant was not initialized during startup, please check configuration''"

definition getInstance ::
  "cloudantDataObj option \<Rightarrow> cloudant_module \<Rightarrow> (error + nat) \<times> cloudant_module" where
  "getInstance cloudantDataObj m =
     (case cloudantDataObj of
        None \<Rightarrow> (Inl (Error cannot_convert), m)
      | Some obj \<Rightarrow>
          (let m1 = m\<lparr>cloudantObj := Some obj\<rparr> in
           (case instance' m1 of
              None \<Rightarrow>
                (case new_CloudantHelperLib m1 of
                   (a, m2) \<Rightarrow> (Inr a, m2\<lparr>instance' := Some a\<rparr>))
            | Some a \<Rightarrow>
                (if cloudant m1 a = None then
                   (Inl (Status500 not_initialized), module_log ERROR not_initialized m1)
                 else (Inr a, m1)))))"

definition setupCloudant :: "nat \<Rightarrow> cloudant_module \<Rightarrow> (error + unit) \<times> cloudant_module" where
  "setupCloudant this m =
     (if cloudant m this = None then
        (case initCloudant m of
           (Inl e, m1) \<Rightarrow>
             (Inl e, module_log ERROR (''Failed to initCloudant: '' @ error_text e) m1)
         | (Inr service, m1) \<Rightarrow> (Inr (), m1\<lparr>cloudant := (cloudant m1)(this := Some service)\<rparr>))
      else (Inr (), m))"


text \<open>
  The calls a program can make on the module, and their results: \<^verbatim>\<open>getInstance\<close>
  with a configuration object or without one, the constructor, and \<^verbatim>\<open>setupCloudant\<close>
  on an object it holds, so on an address in use.
\<close>

datatype op = GetInstance "cloudantDataObj option" | Construct | SetupCloudant nat

datatype outcome = Returned_instance nat | Returned | Thrown error

fun step :: "op \<Rightarrow> cloudant_module \<Rightarrow> outcome \<times> cloudant_module" where
  "step (GetInstance d) m =
     (case getInstance d m of
        (Inl e, m1) \<Rightarrow> (Thrown e, m1)
      | (Inr a, m1) \<Rightarrow> (Returned_instance a, m1))"
| "step Construct m = (case new_CloudantHelperLib m of (a, m1) \<Rightarrow> (Returned, m1))"
| "step (SetupCloudant a) m =
     (if a < allocated m then
        (case setupCloudant a m of
           (Inl e, m1) \<Rightarrow> (Thrown e, m1)
         | (Inr u, m1) \<Rightarrow> (Returned, m1))
      else (Thrown (Error (typeError_of ''setupCloudant'')), m))"

fun run :: "op list \<Rightarrow> cloudant_module \<Rightarrow> outcome list \<times> cloudant_module" where
  "run [] m = ([], m)"
| "run (x # xs) m =
     (case step x m of
        (r, m1) \<Rightarrow> (case run xs m1 of (rs, m2) \<Rightarrow> (r # rs, m2)))"

section \<open>Observations on the calls\<close>

text \<open>
  A call that was rejected. The listing request of \<^verbatim>\<open>getAllKeysHelper\<close>
  (\<^verbatim>\<open>client.get('')\<close>) is the one request of the key workflows that is a read;
  \<open>failed_on_mutation_path\<close> is a rejected call other than the listing: a rejected
  token acquisition, DELETE or POST.
\<close>

fun failed :: "request \<times> reply \<Rightarrow> bool" where
  "failed (rq, Fail st t) = True"
| "failed (rq, Ok d) = False"

fun listing :: "request \<Rightarrow> bool" where
  "listing (Http cl m path b) = (m = GET \<and> path = [])"
| "listing rq = False"

definition failed_on_mutation_path :: "request \<times> reply \<Rightarrow> bool" where
  "failed_on_mutation_path x = (failed x \<and> \<not> listing (fst x))"

text \<open>
  The required fields of the KeyProtect configuration in the order in which they are
  checked, each with its name in the error text and whether it is missing.
\<close>

definition required_fields :: "keyProtectObj \<Rightarrow> (string \<times> bool) list" where
  "required_fields c =
     [(''KEYPROTECT_URL'', falsy_str (keyProtectObj.url c)),
      (''KEYPROTECT_GUID'', falsy_str (instanceID c)),
      (''KEYPROTECT_APIKEY'', falsy_str (keyProtectObj.apikey c)),
      (''KEYPROTECT_RETRIES'', falsy_num (retries c)),
      (''KEYPROTECT_RETRYDELAY'', falsy_num (keyProtectObj.retryDelay c)),
      (''KEYPROTECT_TIMEOUT'', falsy_num (keyProtectObj.timeout c))]"

definition config_error :: "string \<Rightarrow> string" where
  "config_error v = ''Invalid KeyProtect config: missing variable '' @ quoted v"

text \<open>The login request of \<^verbatim>\<open>loginAppID\<close>.\<close>

definition login_request :: "appIDObj \<Rightarrow> string \<Rightarrow> string \<Rightarrow> request" where
  "login_request c usr pwd = Http (appIdLoginClient c) POST ''/'' (LoginForm usr pwd)"

text \<open>
  The provisioning sequence as section 4.4 of the specification orders it (steps 3a to
  3f), read as a rule: given the calls made so far after the rejected login, with
  their replies, \<open>spec_next_call\<close> is the call that is due next, or \<open>None\<close> when the
  sequence is over. The token for the management client is due first; then the list of
  roles, through the client built around that token; then the new account; then the
  login as the new user; then the list of users; then the roles, all the ids that were
  listed, for the first listed user whose email is the user name; then the tenant
  attribute of that user. A call is due only when every call before it was answered
  successfully, the list of roles gave role ids, and the list of users contains the
  user. \<open>in_spec_order\<close> holds of a list of calls made after the calls \<open>before\<close> when each of
  them is the call that was due and no call is due after the last.
\<close>

fun spec_next_call :: "appIDObj \<Rightarrow> string \<Rightarrow> string \<Rightarrow> (request \<times> reply) list \<Rightarrow> request option" where
  "spec_next_call c usr pwd [] = Some (IamToken (appIDObj.apikey c))"
| "spec_next_call c usr pwd [(q1, Ok d)] = Some (Http (axClient c (token_of d)) GET ''/roles'' NoBody)"
| "spec_next_call c usr pwd [(q1, Ok d), (q2, Ok (Roles ids))] =
     Some (Http (axClient c (token_of d)) POST ''/cloud_directory/Users''
             (NewUser usr (userName c) pwd))"
| "spec_next_call c usr pwd [(q1, Ok d), (q2, Ok (Roles ids)), (q3, Ok d3)] =
     Some (login_request c usr pwd)"
| "spec_next_call c usr pwd [(q1, Ok d), (q2, Ok (Roles ids)), (q3, Ok d3), (q4, Ok d4)] =
     Some (Http (axClient c (token_of d)) GET ''/users'' NoBody)"
| "spec_next_call c usr pwd [(q1, Ok d), (q2, Ok (Roles ids)), (q3, Ok d3), (q4, Ok d4),
                        (q5, Ok (Users us))] =
     (case find (\<lambda>u. email u = usr) us of
        None \<Rightarrow> None
      | Some u \<Rightarrow> Some (Http (axClient c (token_of d)) PUT (''/users/'' @ user_id u @ ''/roles'')
                          (RoleIds ids)))"
| "spec_next_call c usr pwd [(q1, Ok d), (q2, Ok (Roles ids)), (q3, Ok d3), (q4, Ok d4),
                        (q5, Ok (Users us)), (q6, Ok d6)] =
     (case find (\<lambda>u. email u = usr) us of
        None \<Rightarrow> None
      | Some u \<Rightarrow> Some (Http (axClient c (token_of d)) PUT (''/users/'' @ user_id u @ ''/profile'')
                          (TenantAttr (userTenantID c))))"
| "spec_next_call c usr pwd cs = None"

fun in_spec_order ::
  "appIDObj \<Rightarrow> string \<Rightarrow> string \<Rightarrow> (request \<times> reply) list \<Rightarrow> (request \<times> reply) list \<Rightarrow> bool" where
  "in_spec_order c usr pwd before [] = (spec_next_call c usr pwd before = None)"
| "in_spec_order c usr pwd before (x # rest) =
     (spec_next_call c usr pwd before = Some (fst x) \<and> in_spec_order c usr pwd (before @ [x]) rest)"

subsection \<open>A reference identity service\<close>

text \<open>
  A directory of accounts (user name and password) and of user profiles. A login
  succeeds for a known account and creates the profile of the user on first use; the
  management requests are all answered.
\<close>

record directory =
  accounts :: "(string \<times> string) list"
  profiles :: "user list"

fun directory_service :: "directory env" where
  "directory_service (IamToken k) s = (Ok (Token ''mgmt-token''), s)"
| "directory_service (Http cl m path (LoginForm usr pwd)) s =
     (if (usr, pwd) \<in> set (accounts s) then
        (Ok NoData,
         if usr \<in> set (map email (profiles s)) then s
         else s\<lparr>profiles := profiles s @ [\<lparr>user_id = ''id-'' @ usr, email = usr\<rparr>]\<rparr>)
      else (Fail (Some 400) ''invalid_grant'', s))"
| "directory_service (Http cl m path (NewUser usr nm pwd)) s =
     (Ok NoData, s\<lparr>accounts := accounts s @ [(usr, pwd)]\<rparr>)"
| "directory_service (Http cl m path NoBody) s =
     (if path = ''/roles'' then (Ok (Roles [''role-1'', ''role-2'']), s)
      else if path = ''/users'' then (Ok (Users (profiles s)), s)
      else (Fail (Some 404) ''Not Found'', s))"
| "directory_service (Http cl m path b) s = (Ok NoData, s)"
| "directory_service (SessionInformation u) s = (Fail (Some 404) ''Not Found'', s)"

text \<open>What the claims about the retry policy speak of.\<close>

fun no_response_or_5xx :: "response \<Rightarrow> bool" where
  "no_response_or_5xx (NoResponse t) = True"
| "no_response_or_5xx (Response st d t) = (500 \<le> st \<and> st \<le> 599)"

definition always_5xx :: "'st wire \<Rightarrow> request \<Rightarrow> bool" where
  "always_5xx wire rq =
     (\<forall>s. \<exists>st d t. fst (wire rq s) = Response st d t \<and> 500 \<le> st \<and> st \<le> 599)"

text \<open>The instance variable of the Cloudant module refers to an object in use.\<close>

definition instance_allocated :: "cloudant_module \<Rightarrow> bool" where
  "instance_allocated m = (case instance' m of None \<Rightarrow> True | Some a \<Rightarrow> a < allocated m)"

section \<open>Example inputs\<close>

definition example_config :: keyProtectObj where
  "example_config =
     \<lparr>keyProtectObj.url = Some ''https://kp.example/api/v2/keys'', instanceID = Some ''guid'',
      keyProtectObj.apikey = Some ''apikey'', retries = Some 2,
      keyProtectObj.retryDelay = Some 500, keyProtectObj.timeout = Some 10000\<rparr>"

definition key_of :: "string \<Rightarrow> string \<Rightarrow> int \<Rightarrow> key" where
  "key_of i n t = \<lparr>key_id = i, key_name = n, creationDate = t, key_payload = None\<rparr>"

text \<open>Two keys named K created at the same instant.\<close>

definition tie_store :: keyprotect where
  "tie_store =
     \<lparr>store = [key_of ''a'' ''K'' 1000, key_of ''b'' ''K'' 1000], minted = 0, now = 5000\<rparr>"

text \<open>Two keys named K, listed oldest first and listed newest first.\<close>

definition ascending_store :: keyprotect where
  "ascending_store =
     \<lparr>store = [key_of ''b'' ''K'' 1000, key_of ''a'' ''K'' 2000], minted = 0, now = 5000\<rparr>"

definition descending_store :: keyprotect where
  "descending_store =
     \<lparr>store = [key_of ''a'' ''K'' 2000, key_of ''b'' ''K'' 1000], minted = 0, now = 5000\<rparr>"

text \<open>An unset configuration, as the module has it before \<^verbatim>\<open>setConfig\<close> is called.\<close>

definition unconfigured :: keyProtectObj where
  "unconfigured =
     \<lparr>keyProtectObj.url = None, instanceID = None, keyProtectObj.apikey = None, retries = None,
      keyProtectObj.retryDelay = None, keyProtectObj.timeout = None\<rparr>"


text \<open>The reference KeyProtect service while its listing endpoint is down.\<close>

definition listing_down :: "keyprotect env" where
  "listing_down rq s =
     (case rq of
        Http cl m path b \<Rightarrow>
          (if m = GET \<and> path = [] then (Fail (Some 503) ''Service Unavailable'', s)
           else keyprotect_service rq s)
      | _ \<Rightarrow> keyprotect_service rq s)"



definition example_appid :: appIDObj where
  "example_appid =
     \<lparr>appIDObj.url = Some ''https://appid.example'', clientID = Some ''client'',
      tenantID = Some ''tenant'', secret = Some ''secret'', appIDObj.apikey = Some ''apikey'',
      userName = Some ''qa-user'', userTenantID = Some ''5102''\<rparr>"

definition empty_directory :: directory where
  "empty_directory = \<lparr>accounts = [], profiles = []\<rparr>"

definition known_directory :: directory where
  "known_directory =
     \<lparr>accounts = [(''a@b.com'', ''pw'')],
      profiles = [\<lparr>user_id = ''id-a@b.com'', email = ''a@b.com''\<rparr>]\<rparr>"

text \<open>The calls of a complete provisioning run for the user \<open>a@b.com\<close>, after the first login.\<close>

definition fresh_user_calls :: "(request \<times> reply) list" where
  "fresh_user_calls =
     [(IamToken (appIDObj.apikey example_appid), Ok (Token ''mgmt-token'')),
      (Http (axClient example_appid ''mgmt-token'') GET ''/roles'' NoBody,
       Ok (Roles [''role-1'', ''role-2''])),
      (Http (axClient example_appid ''mgmt-token'') POST ''/cloud_directory/Users''
         (NewUser ''a@b.com'' (userName example_appid) ''pw''), Ok NoData),
      (login_request example_appid ''a@b.com'' ''pw'', Ok NoData),
      (Http (axClient example_appid ''mgmt-token'') GET ''/users'' NoBody,
       Ok (Users [\<lparr>user_id = ''id-a@b.com'', email = ''a@b.com''\<rparr>])),
      (Http (axClient example_appid ''mgmt-token'') PUT ''/users/id-a@b.com/roles''
         (RoleIds [''role-1'', ''role-2'']), Ok NoData),
      (Http (axClient example_appid ''mgmt-token'') PUT ''/users/id-a@b.com/profile''
         (TenantAttr (userTenantID example_appid)), Ok NoData)]"

text \<open>
  Defaults of a retry library, and wires that answer every attempt with 503 and with
  404.
\<close>

definition example_defaults :: rax_defaults where
  "example_defaults =
     \<lparr>default_retry = 3, default_noResponseRetries = 2, default_retryDelay = 100,
      default_methods = [GET, HEAD, PUT, OPTIONS, DELETE]\<rparr>"

definition always_503 :: "unit wire" where
  "always_503 rq s = (Response 503 NoData ''Service Unavailable'', s)"

definition always_404 :: "unit wire" where
  "always_404 rq s = (Response 404 NoData ''Not Found'', s)"

definition example_db :: cloudantDataObj where
  "example_db =
     \<lparr>connection = Some \<lparr>account = Some ''acct'', iamApiKey = Some ''iam-key'',
                          connection.url = Some ''https://db.example'', username = None,
                          password = None, proxyUrl = None\<rparr>,
      dbPartitionKey = Some ''pk''\<rparr>"

section \<open>Basic facts about the world\<close>

lemma remote_log_at [simp]: "remote (log_at l msg w) = remote w"
  by (simp add: log_at_def)

lemma calls_log_at [simp]: "calls (log_at l msg w) = calls w"
  by (simp add: log_at_def)

lemma logs_log_at [simp]: "logs (log_at l msg w) = logs w @ [(l, msg)]"
  by (simp add: log_at_def)

lemma call_calls:
  "call env rq w = (rp, w') \<Longrightarrow> calls w' = calls w @ [(rq, rp)] \<and> logs w' = logs w
     \<and> env rq (remote w) = (rp, remote w')"
  by (auto simp: call_def split: prod.splits)

lemma delete_targets_append [simp]:
  "delete_targets (xs @ ys) = delete_targets xs @ delete_targets ys"
  by (induction xs rule: delete_targets.induct) (auto split: option.splits)

lemmas keyprotect_eval =
  getNewestKeyIDByName_def getKeysByName_def getAllKeys_def getAllKeysHelper_def
  validateConfig_def missingVar_def falsy_str_def falsy_num_def example_config_def
  key_of_def start_def call_def log_at_def deleteKey_def deleteKey_try_def keyProtectClient_def Let_def

section \<open>The scan for the newest key\<close>

lemma deleteKey_targets:
  assumes "deleteKey env c kid w = (r, w')"
  shows "set (delete_targets (calls w')) \<subseteq> insert kid (set (delete_targets (calls w)))"
  using assms
  by (auto simp: deleteKey_def deleteKey_try_def Let_def split: sum.splits prod.splits reply.splits
           dest!: call_calls)

text \<open>The loop over a list in two parts is the loop over the parts, one after the other.\<close>

lemma newestLoop_append:
  "newestLoop env c nm (as @ bs) nid nd w =
     (case newestLoop env c nm as nid nd w of
        (Inl e, w1) \<Rightarrow> (Inl e, w1)
      | (Inr (nid1, nd1), w1) \<Rightarrow> newestLoop env c nm bs nid1 nd1 w1)"
  by (induction as arbitrary: nid nd w) (auto split: prod.splits sum.splits)

text \<open>The date the loop ends with is at least the date of every record of the name.\<close>

lemma newestLoop_date:
  "newestLoop env c nm ks nid nd w = (Inr (nid1, nd1), w') \<Longrightarrow>
     nd \<le> nd1 \<and> (\<forall>k\<in>set ks. key_name k = nm \<longrightarrow> creationDate k \<le> nd1)"
proof (induction ks arbitrary: nid nd w)
  case Nil
  then show ?case by simp
next
  case (Cons k ks)
  then show ?case
    by (fastforce split: if_splits prod.splits sum.splits)
qed

text \<open>The loop deletes and returns only ids it was started with or met in the list.\<close>

lemma newestLoop_ids:
  "newestLoop env c nm ks nid nd w = (r, w') \<Longrightarrow>
     set (delete_targets (calls w'))
       \<subseteq> set (delete_targets (calls w)) \<union> insert nid (key_id ` set ks)
     \<and> (\<forall>i d. r = Inr (i, d) \<longrightarrow> i \<in> insert nid (key_id ` set ks))"
proof (induction ks arbitrary: nid nd w)
  case Nil
  then show ?case by auto
next
  case (Cons k ks)
  show ?case
  proof (cases "key_name k = nm \<and> nd < creationDate k")
    case False
    with Cons.prems have "newestLoop env c nm ks nid nd w = (r, w')" by auto
    from Cons.IH[OF this] show ?thesis by auto
  next
    case sel: True
    show ?thesis
    proof (cases "nid = []")
      case True
      with sel Cons.prems have "newestLoop env c nm ks (key_id k) (creationDate k) w = (r, w')"
        by auto
      from Cons.IH[OF this] show ?thesis by auto
    next
      case False
      let ?w = "log_at WARN (''Attempting to delete older key '' @ nid
                               @ '' with name '' @ nm @ '' in KeyProtect'') w"
      obtain x w1 where d: "deleteKey env c nid ?w = (x, w1)"
        by (cases "deleteKey env c nid ?w")
      from deleteKey_targets[OF d]
      have t: "set (delete_targets (calls w1)) \<subseteq> insert nid (set (delete_targets (calls w)))"
        by simp
      show ?thesis
      proof (cases x)
        case (Inl e)
        with sel False d Cons.prems have "r = Inl e" "w' = w1" by auto
        with t show ?thesis by auto
      next
        case (Inr u)
        with sel False d Cons.prems
        have "newestLoop env c nm ks (key_id k) (creationDate k) w1 = (r, w')" by auto
        from Cons.IH[OF this] t show ?thesis by auto
      qed
    qed
  qed
qed

lemma getKeysByName_listing:
  assumes "getKeysByName env c (Some cl) nm w = (ks, w1)"
  shows "delete_targets (calls w1) = delete_targets (calls w)
         \<and> (ks = [] \<or> (\<exists>all s. env (Http cl GET [] NoBody) (remote w) = (Ok (Resources all), s)
                              \<and> ks = filter (\<lambda>k. key_name k = nm) all))"
  using assms
  by (auto simp: getKeysByName_def getAllKeys_def getAllKeysHelper_def Let_def
           split: sum.splits prod.splits reply.splits data.splits dest!: call_calls)

text \<open>
  C2, as the code has it. The claim says that of two records with the same name and the
  same creation timestamp the later-listed one is kept and the earlier-listed one is
  deleted. The comparison \<^verbatim>\<open>newestCreationDate.isBefore(currentCreationDate)\<close> is
  strict, so the later-listed record of such a pair is never selected: whatever else
  the listing holds, the scan neither returns its id as the newest key nor sends a
  DELETE for it (its id being non-empty and borne by no other listed record). Of the
  two, only the earlier-listed record can be kept.
\<close>

theorem getNewestKeyIDByName_tie_keeps_earlier:
  assumes listing:
      "env (Http cl GET [] NoBody) (remote w) = (Ok (Resources (xs @ ki # ys @ kj # zs)), s)"
    and same: "key_name ki = key_name kj" "creationDate ki = creationDate kj"
    and uniq: "key_id kj \<notin> insert [] (key_id ` set (xs @ ki # ys @ zs))"
    and before: "key_id kj \<notin> set (delete_targets (calls w))"
    and res: "getNewestKeyIDByName env c (Some cl) searchName w = (r, w')"
  shows "r \<noteq> Inr (key_id kj) \<and> key_id kj \<notin> set (delete_targets (calls w'))"
proof -
  let ?P = "\<lambda>k. key_name k = searchName"
  define others where "others = insert [] (key_id ` set (xs @ ki # ys @ zs))"
  define done0 where "done0 = set (delete_targets (calls w))"
  have kj: "key_id kj \<notin> done0 \<union> others"
    using uniq before by (simp add: others_def done0_def)
  obtain ks w1 where g: "getKeysByName env c (Some cl) searchName w = (ks, w1)"
    by (cases "getKeysByName env c (Some cl) searchName w")
  obtain x w2 where l: "newestLoop env c searchName ks [] 0 w1 = (x, w2)"
    by (cases "newestLoop env c searchName ks [] 0 w1")
  from res g l have r: "r = map_sum id fst x" and w': "w' = w2"
    by (auto simp: getNewestKeyIDByName_def split: sum.splits prod.splits)
  from getKeysByName_listing[OF g] listing
  have t1: "set (delete_targets (calls w1)) = done0"
    and ks: "ks = [] \<or> ks = filter ?P (xs @ ki # ys @ kj # zs)" by (auto simp: done0_def)
  have goal: "(\<forall>i d. x = Inr (i, d) \<longrightarrow> i \<in> others)
      \<and> set (delete_targets (calls w2)) \<subseteq> done0 \<union> others"
  proof (cases "ks \<noteq> [] \<and> ?P kj")
    case False
    have "set (filter ?P (xs @ ki # ys @ kj # zs)) \<subseteq> set (xs @ ki # ys @ zs)"
      if "\<not> ?P kj" using that by auto
    with ks False have "set ks \<subseteq> set (xs @ ki # ys @ zs)" by (cases "ks = []") auto
    then have "insert [] (key_id ` set ks) \<subseteq> others" unfolding others_def by blast
    with newestLoop_ids[OF l, unfolded t1] show ?thesis by blast
  next
    case True
    with ks same have split: "ks = (filter ?P xs @ ki # filter ?P ys) @ kj # filter ?P zs"
      by auto
    let ?as = "filter ?P xs @ ki # filter ?P ys"
    obtain y w3 where a: "newestLoop env c searchName ?as [] 0 w1 = (y, w3)"
      by (cases "newestLoop env c searchName ?as [] 0 w1")
    have ids_as: "insert [] (key_id ` set ?as) \<subseteq> others" unfolding others_def by auto
    have ids_zs: "key_id ` set (filter ?P zs) \<subseteq> others" unfolding others_def by auto
    from newestLoop_ids[OF a, unfolded t1] ids_as
    have A1: "set (delete_targets (calls w3)) \<subseteq> done0 \<union> others"
      and A2: "\<forall>i d. y = Inr (i, d) \<longrightarrow> i \<in> others" by blast+
    have "newestLoop env c searchName ks [] 0 w1 =
        (case newestLoop env c searchName ?as [] 0 w1 of
           (Inl e, w1) \<Rightarrow> (Inl e, w1)
         | (Inr (nid1, nd1), w1) \<Rightarrow>
             newestLoop env c searchName (kj # filter ?P zs) nid1 nd1 w1)"
      unfolding split by (rule newestLoop_append)
    with l a have step: "(x, w2) =
        (case y of Inl e \<Rightarrow> (Inl e, w3)
         | Inr (nid1, nd1) \<Rightarrow> newestLoop env c searchName (kj # filter ?P zs) nid1 nd1 w3)"
      by (simp split: sum.splits prod.splits)
    show ?thesis
    proof (cases y)
      case (Inl e)
      with step have "x = Inl e" "w2 = w3" by auto
      with A1 show ?thesis by simp
    next
      case (Inr p)
      obtain nid1 nd1 where p: "p = (nid1, nd1)" by (cases p)
      from newestLoop_date[OF a[unfolded Inr p]] True same
      have "creationDate kj \<le> nd1" by auto
      with step Inr p
      have z: "newestLoop env c searchName (filter ?P zs) nid1 nd1 w3 = (x, w2)"
        by auto
      from A2 Inr p have "nid1 \<in> others" by simp
      with ids_zs have "insert nid1 (key_id ` set (filter ?P zs)) \<subseteq> others" by simp
      with newestLoop_ids[OF z] A1 show ?thesis by blast
    qed
  qed
  with r w' kj show ?thesis by (cases x) auto
qed

text \<open>The theorem at the listing of \<open>tie_store\<close>: the later-listed key b is left alone.\<close>

theorem getNewestKeyIDByName_tie_keeps_earlier_witness:
  "fst (getNewestKeyIDByName keyprotect_service example_config
          (Some (keyProtectClient example_config ''t'')) ''K'' (start tie_store)) \<noteq> Inr ''b''
   \<and> ''b'' \<notin> set (delete_targets (calls (snd (getNewestKeyIDByName keyprotect_service
          example_config (Some (keyProtectClient example_config ''t'')) ''K''
          (start tie_store)))))"
  using getNewestKeyIDByName_tie_keeps_earlier
    [of keyprotect_service "keyProtectClient example_config ''t''"
      "start tie_store" "[]" "key_of ''a'' ''K'' 1000" "[]" "key_of ''b'' ''K'' 1000" "[]"
      tie_store "example_config" "''K''"
      "fst (getNewestKeyIDByName keyprotect_service example_config
          (Some (keyProtectClient example_config ''t'')) ''K'' (start tie_store))"
      "snd (getNewestKeyIDByName keyprotect_service example_config
          (Some (keyProtectClient example_config ''t'')) ''K'' (start tie_store))"]
  by (simp add: tie_store_def key_of_def start_def)

text \<open>
  C2 as stated fails: on two keys a and b named K with the same creation timestamp,
  listed in this order, the scan returns the earlier-listed a and leaves the store as
  it was, so a is not deleted and b is not the key that is kept.
\<close>

theorem getNewestKeyIDByName_tie_counterexample:
  "fst (getNewestKeyIDByName keyprotect_service example_config
          (Some (keyProtectClient example_config ''t'')) ''K'' (start tie_store)) = Inr ''a''
   \<and> remote (snd (getNewestKeyIDByName keyprotect_service example_config
          (Some (keyProtectClient example_config ''t'')) ''K'' (start tie_store))) = tie_store"
  by (simp add: keyprotect_eval tie_store_def)

section \<open>Creating a key on the reference service\<close>

lemma svc_delete:
  assumes "validateConfig c = Inr ()" "kid \<in> key_id ` set (store (remote w))"
  shows "\<exists>w'. deleteKey keyprotect_service c kid w = (Inr (), w')
     \<and> remote w' = (remote w)\<lparr>store := filter (\<lambda>k. key_id k \<noteq> kid) (store (remote w))\<rparr>
     \<and> delete_targets (calls w') = delete_targets (calls w) @ [kid]"
  using assms by (simp add: deleteKey_def deleteKey_try_def call_def)

lemma svc_loop:
  assumes "validateConfig c = Inr ()"
  shows "\<forall>k\<in>set ks. key_name k = nm \<and> key_id k \<noteq> [] \<Longrightarrow>
     sorted_wrt (<) (map creationDate ks) \<Longrightarrow>
     \<forall>k\<in>set ks. nd < creationDate k \<Longrightarrow>
     distinct (nid # map key_id ks) \<Longrightarrow>
     nid = [] \<or> nid \<in> key_id ` set (store (remote w)) \<Longrightarrow>
     key_id ` set ks \<subseteq> key_id ` set (store (remote w)) \<Longrightarrow>
     \<exists>w'. newestLoop keyprotect_service c nm ks nid nd w
            = (Inr (last (nid # map key_id ks), last (nd # map creationDate ks)), w')
        \<and> remote w' = (remote w)\<lparr>store :=
              filter (\<lambda>k. key_id k \<notin> set (filter (\<lambda>i. i \<noteq> []) (butlast (nid # map key_id ks))))
                (store (remote w))\<rparr>
        \<and> delete_targets (calls w')
            = delete_targets (calls w) @ filter (\<lambda>i. i \<noteq> []) (butlast (nid # map key_id ks))"
proof (induction ks arbitrary: nid nd w)
  case Nil
  then show ?case by simp
next
  case (Cons k ks)
  have sel: "key_name k = nm \<and> nd < creationDate k" using Cons.prems by simp
  have kid: "key_id k \<noteq> []" "key_id k \<noteq> nid" using Cons.prems by auto
  have IHp: "\<forall>k\<in>set ks. key_name k = nm \<and> key_id k \<noteq> []"
    "sorted_wrt (<) (map creationDate ks)"
    "\<forall>k'\<in>set ks. creationDate k < creationDate k'"
    "distinct (key_id k # map key_id ks)"
    using Cons.prems by auto
  show ?case
  proof (cases "nid = []")
    case True
    have a: "key_id k = [] \<or> key_id k \<in> key_id ` set (store (remote w))"
      and b: "key_id ` set ks \<subseteq> key_id ` set (store (remote w))"
      using Cons.prems(6) by auto
    from Cons.IH[OF IHp a b] True sel show ?thesis by auto
  next
    case False
    let ?w = "log_at WARN (''Attempting to delete older key '' @ nid
                               @ '' with name '' @ nm @ '' in KeyProtect'') w"
    have "nid \<in> key_id ` set (store (remote ?w))" using Cons.prems(5) False by auto
    from svc_delete[OF assms this] obtain w1 where
      d: "deleteKey keyprotect_service c nid ?w = (Inr (), w1)"
      and r1: "remote w1 = (remote w)\<lparr>store := filter (\<lambda>k. key_id k \<noteq> nid) (store (remote w))\<rparr>"
      and t1: "delete_targets (calls w1) = delete_targets (calls w) @ [nid]"
      by auto
    have keep: "i \<in> key_id ` set (store (remote w1))"
      if "i \<in> key_id ` set (store (remote w))" "i \<noteq> nid" for i
      using that by (auto simp: r1)
    have a: "key_id k = [] \<or> key_id k \<in> key_id ` set (store (remote w1))"
      using Cons.prems(6) kid by (intro disjI2 keep) auto
    have b: "key_id ` set ks \<subseteq> key_id ` set (store (remote w1))"
    proof
      fix i assume i: "i \<in> key_id ` set ks"
      then have "i \<noteq> nid" using Cons.prems(4) by auto
      moreover from i Cons.prems(6) have "i \<in> key_id ` set (store (remote w))" by auto
      ultimately show "i \<in> key_id ` set (store (remote w1))" by (rule keep[rotated])
    qed
    from Cons.IH[OF IHp a b] obtain w' where
      l: "newestLoop keyprotect_service c nm ks (key_id k) (creationDate k) w1
            = (Inr (last (key_id k # map key_id ks), last (creationDate k # map creationDate ks)), w')"
      and r2: "remote w' = (remote w1)\<lparr>store :=
              filter (\<lambda>x. key_id x \<notin> set (filter (\<lambda>i. i \<noteq> []) (butlast (key_id k # map key_id ks))))
                (store (remote w1))\<rparr>"
      and t2: "delete_targets (calls w')
            = delete_targets (calls w1) @ filter (\<lambda>i. i \<noteq> []) (butlast (key_id k # map key_id ks))"
      by blast
    have "newestLoop keyprotect_service c nm (k # ks) nid nd w
        = (Inr (last (nid # map key_id (k # ks)), last (nd # map creationDate (k # ks))), w')"
      using sel False d l by simp
    moreover have "remote w' = (remote w)\<lparr>store :=
              filter (\<lambda>x. key_id x \<notin> set (filter (\<lambda>i. i \<noteq> []) (butlast (nid # map key_id (k # ks)))))
                (store (remote w))\<rparr>"
      using r1 r2 False by (auto simp: conj_commute)
    moreover have "delete_targets (calls w')
            = delete_targets (calls w) @ filter (\<lambda>i. i \<noteq> []) (butlast (nid # map key_id (k # ks)))"
      using t1 t2 False by simp
    ultimately show ?thesis by blast
  qed
qed


lemma svc_getKeysByName:
  assumes "validateConfig c = Inr ()"
  shows "\<exists>w'. getKeysByName keyprotect_service c (Some cl) nm w
            = (filter (\<lambda>k. key_name k = nm) (store (remote w)), w')
     \<and> remote w' = remote w \<and> delete_targets (calls w') = delete_targets (calls w)"
  using assms
  by (simp add: getKeysByName_def getAllKeys_def getAllKeysHelper_def call_def Let_def)

lemma distinct_filter_ids:
  "distinct (map key_id st) \<Longrightarrow>
     filter (\<lambda>k. key_id k \<notin> key_id ` set (filter P st)) st = filter (\<lambda>k. \<not> P k) st"
proof (rule filter_cong[OF refl])
  fix x assume d: "distinct (map key_id st)" and x: "x \<in> set st"
  have "y = x" if "y \<in> set st" "key_id y = key_id x" for y
    using d that x by (meson distinct_map inj_onD)
  then show "(key_id x \<notin> key_id ` set (filter P st)) = (\<not> P x)"
    using x by auto
qed

lemma svc_getNewest:
  assumes valid: "validateConfig c = Inr ()"
    and ids: "distinct (map key_id (store (remote w)))"
    and K: "\<forall>k\<in>set (store (remote w)). key_name k = nm \<longrightarrow> key_id k \<noteq> [] \<and> 0 < creationDate k"
    and asc: "sorted_wrt (<) (map creationDate (filter (\<lambda>k. key_name k = nm) (store (remote w))))"
  shows "\<exists>w'. getNewestKeyIDByName keyprotect_service c (Some cl) nm w
            = (Inr (last ([] # map key_id (filter (\<lambda>k. key_name k = nm) (store (remote w))))), w')
     \<and> remote w' = (remote w)\<lparr>store :=
           filter (\<lambda>k. key_id k \<notin> set (butlast (map key_id (filter (\<lambda>k. key_name k = nm) (store (remote w))))))
             (store (remote w))\<rparr>
     \<and> delete_targets (calls w')
         = delete_targets (calls w) @ butlast (map key_id (filter (\<lambda>k. key_name k = nm) (store (remote w))))"
proof -
  let ?fs = "filter (\<lambda>k. key_name k = nm) (store (remote w))"
  from svc_getKeysByName[OF valid] obtain w1 where
    g: "getKeysByName keyprotect_service c (Some cl) nm w = (?fs, w1)"
    and r1: "remote w1 = remote w" and t1: "delete_targets (calls w1) = delete_targets (calls w)"
    by blast
  have nonempty: "\<forall>k\<in>set ?fs. key_name k = nm \<and> key_id k \<noteq> []" using K by auto
  have pos: "\<forall>k\<in>set ?fs. 0 < creationDate k" using K by auto
  have ne: "key_id k \<noteq> []" if "k \<in> set ?fs" for k using nonempty that by blast
  have noe: "[] \<notin> key_id ` set ?fs"
  proof (rule notI, erule imageE)
    fix k assume "[] = key_id k" "k \<in> set ?fs"
    with ne[of k] show False by simp
  qed
  have dist: "distinct ([] # map key_id ?fs)"
    using ids noe by (simp add: distinct_map_filter)
  have sub: "key_id ` set ?fs \<subseteq> key_id ` set (store (remote w1))" by (auto simp: r1)
  have flt: "filter (\<lambda>i. i \<noteq> []) (butlast ([] # map key_id ?fs)) = butlast (map key_id ?fs)"
  proof (cases "?fs = []")
    case True
    then show ?thesis by simp
  next
    case False
    have "i \<noteq> []" if "i \<in> set (butlast (map key_id ?fs))" for i
    proof -
      from that have "i \<in> set (map key_id ?fs)" by (rule in_set_butlastD)
      then have "i \<in> key_id ` set ?fs" by (simp only: set_map)
      with noe show ?thesis by blast
    qed
    then have "filter (\<lambda>i. i \<noteq> []) (butlast (map key_id ?fs)) = butlast (map key_id ?fs)"
      by (simp add: filter_id_conv)
    with False show ?thesis by simp
  qed
  have dis: "[] = [] \<or> [] \<in> key_id ` set (store (remote w1))" by simp
  from svc_loop[OF valid nonempty asc pos dist dis sub] obtain w2 where
    l: "newestLoop keyprotect_service c nm ?fs [] 0 w1
          = (Inr (last ([] # map key_id ?fs), last (0 # map creationDate ?fs)), w2)"
    and r2: "remote w2 = (remote w1)\<lparr>store :=
              filter (\<lambda>k. key_id k \<notin> set (filter (\<lambda>i. i \<noteq> []) (butlast ([] # map key_id ?fs))))
                (store (remote w1))\<rparr>"
    and t2: "delete_targets (calls w2)
            = delete_targets (calls w1) @ filter (\<lambda>i. i \<noteq> []) (butlast ([] # map key_id ?fs))"
    by blast
  have "getNewestKeyIDByName keyprotect_service c (Some cl) nm w
            = (Inr (last ([] # map key_id ?fs)), w2)"
    using g l by (simp add: getNewestKeyIDByName_def)
  with r2 t2 show ?thesis unfolding flt r1 t1 by blast
qed


text \<open>
  C1, as the code has it. The scan deletes a record only when a strictly newer record
  of the name follows it in the listing, and createKey then deletes the record the scan
  ends with. So when the service lists the records of the name in strictly increasing
  creation order (ids unique and, for this name, non-empty; dates after the epoch),
  createKey on a valid configuration with a non-empty name and payload deletes every
  one of them, in listing order, creates one record carrying the encoded payload and
  returns its id; exactly one record of the name is left.
\<close>

theorem createKey_replaces_ascending:
  assumes valid: "validateConfig c = Inr ()"
    and name: "keyName \<noteq> []" and pay: "truthy keyPayload"
    and ids: "distinct (map key_id (store (remote w)))"
    and K: "\<forall>k\<in>set (store (remote w)).
              key_name k = keyName \<longrightarrow> key_id k \<noteq> [] \<and> 0 < creationDate k"
    and asc: "sorted_wrt (<)
               (map creationDate (filter (\<lambda>k. key_name k = keyName) (store (remote w))))"
  shows "\<exists>w'. createKey keyprotect_service c keyName keyPayload w
                = (Inr (mint (minted (remote w))), w')
      \<and> store (remote w')
          = filter (\<lambda>k. key_name k \<noteq> keyName) (store (remote w))
            @ [\<lparr>key_id = mint (minted (remote w)), key_name = keyName,
                creationDate = now (remote w), key_payload = Some (Base64 keyPayload)\<rparr>]
      \<and> delete_targets (calls w')
          = delete_targets (calls w)
            @ map key_id (filter (\<lambda>k. key_name k = keyName) (store (remote w)))
      \<and> length (filter (\<lambda>k. key_name k = keyName) (store (remote w'))) = 1"
proof -
  let ?st = "store (remote w)"
  let ?fs = "filter (\<lambda>k. key_name k = keyName) ?st"
  let ?new = "\<lparr>key_id = mint (minted (remote w)), key_name = keyName,
                creationDate = now (remote w), key_payload = Some (Base64 keyPayload)\<rparr>"
  let ?w0 = "log_at DEBUG ''Attempting to check for existing key (before creating new key)'' w"
  obtain w1 where tok: "call keyprotect_service (IamToken (keyProtectObj.apikey c)) ?w0
        = (Ok (Token ''iam-token''), w1)"
    and r1: "remote w1 = remote w" and t1: "delete_targets (calls w1) = delete_targets (calls w)"
    by (simp add: call_def)
  let ?cl = "keyProtectClient c ''iam-token''"
  from svc_getNewest[OF valid, of w1 keyName ?cl] ids K asc obtain w2 where
    n: "getNewestKeyIDByName keyprotect_service c (Some ?cl) keyName w1
            = (Inr (last ([] # map key_id ?fs)), w2)"
    and r2: "remote w2 = (remote w)\<lparr>store :=
           filter (\<lambda>k. key_id k \<notin> set (butlast (map key_id ?fs))) ?st\<rparr>"
    and t2: "delete_targets (calls w2) = delete_targets (calls w) @ butlast (map key_id ?fs)"
    unfolding r1 t1 by blast
  have nonempty: "\<forall>k\<in>set ?fs. key_id k \<noteq> []" using K by auto
  have dist: "distinct (map key_id ?fs)" using ids by (simp add: distinct_map_filter)
  define ex where "ex = last ([] # map key_id ?fs)"
  note n = n[folded ex_def]
  let ?w2' = "log_at DEBUG
                ''Existing key found, attempting to delete (before creating new key)'' w2"
  have del: "\<exists>w3. (if ex \<noteq> [] then deleteKey keyprotect_service c ex ?w2' else (Inr (), w2))
                 = (Inr (), w3)
      \<and> remote w3 = (remote w)\<lparr>store := filter (\<lambda>k. key_name k \<noteq> keyName) ?st\<rparr>
      \<and> delete_targets (calls w3) = delete_targets (calls w) @ map key_id ?fs"
  proof (cases "?fs = []")
    case True
    then have "filter (\<lambda>k. key_name k \<noteq> keyName) ?st = ?st"
      by (simp add: filter_empty_conv filter_id_conv)
    with True r2 t2 show ?thesis by (simp add: ex_def)
  next
    case False
    then have lastin: "last ?fs \<in> set ?fs" by (rule last_in_set)
    with nonempty have "key_id (last ?fs) \<noteq> []" by blast
    with False have ex: "ex = last (map key_id ?fs)" "ex \<noteq> []" "ex = key_id (last ?fs)"
      by (simp_all add: last_map ex_def)
    have "map key_id ?fs \<noteq> []" using False by simp
    from append_butlast_last_id[OF this]
    have split: "map key_id ?fs = butlast (map key_id ?fs) @ [ex]"
      unfolding ex(1) by simp
    have notin: "ex \<notin> set (butlast (map key_id ?fs))"
      using dist split by (metis distinct_append disjoint_iff list.set_intros(1))
    have "last ?fs \<in> set ?st" using lastin by simp
    then have "ex \<in> key_id ` set ?st" unfolding ex(3) by (rule imageI)
    with notin have "ex \<in> key_id ` set (store (remote ?w2'))" by (auto simp: r2)
    from svc_delete[OF valid this] obtain w3 where
      d: "deleteKey keyprotect_service c ex ?w2' = (Inr (), w3)"
      and r3: "remote w3 = (remote ?w2')\<lparr>store := filter (\<lambda>k. key_id k \<noteq> ex) (store (remote ?w2'))\<rparr>"
      and t3: "delete_targets (calls w3) = delete_targets (calls ?w2') @ [ex]"
      by blast
    have "set (map key_id ?fs) = insert ex (set (butlast (map key_id ?fs)))"
      by (subst split) simp
    then have "filter (\<lambda>k. key_id k \<noteq> ex) (filter (\<lambda>k. key_id k \<notin> set (butlast (map key_id ?fs))) ?st)
        = filter (\<lambda>k. key_id k \<notin> key_id ` set ?fs) ?st"
      by (auto simp: conj_commute intro!: filter_cong)
    also have "\<dots> = filter (\<lambda>k. key_name k \<noteq> keyName) ?st"
      using distinct_filter_ids[OF ids, of "\<lambda>k. key_name k = keyName"] by simp
    finally have "remote w3 = (remote w)\<lparr>store := filter (\<lambda>k. key_name k \<noteq> keyName) ?st\<rparr>"
      using r3 r2 by simp
    moreover have "delete_targets (calls w3) = delete_targets (calls w) @ map key_id ?fs"
      using t3 t2 split by simp
    ultimately show ?thesis using d ex by simp
  qed
  then obtain w3 where
    d: "(if ex \<noteq> [] then deleteKey keyprotect_service c ex ?w2' else (Inr (), w2)) = (Inr (), w3)"
    and r3: "remote w3 = (remote w)\<lparr>store := filter (\<lambda>k. key_name k \<noteq> keyName) ?st\<rparr>"
    and t3: "delete_targets (calls w3) = delete_targets (calls w) @ map key_id ?fs"
    by blast
  obtain w4 where post: "call keyprotect_service
        (Http ?cl POST [] (KeyBody keyName (Base64 keyPayload))) w3 = (Ok (Resources [?new]), w4)"
    and r4: "store (remote w4) = filter (\<lambda>k. key_name k \<noteq> keyName) ?st @ [?new]"
    and t4: "delete_targets (calls w4) = delete_targets (calls w) @ map key_id ?fs"
    by (simp add: call_def r3 t3)
  have mint_ne: "mint (minted (remote w)) \<noteq> []" by (simp add: mint_def)
  have "createKey keyprotect_service c keyName keyPayload w
      = (Inr (mint (minted (remote w))),
         log_at INFO (''Successfully created key '' @ mint (minted (remote w))
                        @ '' in KeyProtect'') w4)"
    using valid name pay tok n d post mint_ne
    by (simp add: createKey_def createKey_try_def parseKeyID_def)
  moreover have "length (filter (\<lambda>k. key_name k = keyName)
      (filter (\<lambda>k. key_name k \<noteq> keyName) ?st @ [?new])) = 1"
    by simp
  ultimately show ?thesis using r4 t4 by simp
qed

theorem createKey_replaces_ascending_witness:
  "\<exists>w'. createKey keyprotect_service example_config ''K'' (Str ''secret'')
            (start ascending_store) = (Inr (mint 0), w')
      \<and> store (remote w')
          = [\<lparr>key_id = mint 0, key_name = ''K'', creationDate = 5000,
               key_payload = Some (Base64 (Str ''secret''))\<rparr>]
      \<and> delete_targets (calls w') = [''b'', ''a'']
      \<and> length (filter (\<lambda>k. key_name k = ''K'') (store (remote w'))) = 1"
  using createKey_replaces_ascending
    [of example_config "''K''" "Str ''secret''" "start ascending_store"]
  by (simp add: validateConfig_def missingVar_def falsy_str_def falsy_num_def
        example_config_def ascending_store_def key_of_def start_def)

text \<open>
  C1 as stated fails. With the newer key a listed before the older key b, the scan
  keeps a and skips b; createKey deletes a only, creates the new key and returns its
  id, and two records named K are left, the old b among them. And when the listing
  request fails, the failure is swallowed on the read path: createKey deletes nothing,
  creates the new key and succeeds, and three records named K are left.
\<close>

theorem createKey_counterexample:
  "(\<exists>w'. createKey keyprotect_service example_config ''K'' (Str ''secret'')
            (start descending_store) = (Inr (mint 0), w')
      \<and> store (remote w')
          = [key_of ''b'' ''K'' 1000,
             \<lparr>key_id = mint 0, key_name = ''K'', creationDate = 5000,
               key_payload = Some (Base64 (Str ''secret''))\<rparr>]
      \<and> delete_targets (calls w') = [''a''])
   \<and> (\<exists>w'. createKey listing_down example_config ''K'' (Str ''secret'')
            (start ascending_store) = (Inr (mint 0), w')
      \<and> store (remote w')
          = [key_of ''b'' ''K'' 1000, key_of ''a'' ''K'' 2000,
             \<lparr>key_id = mint 0, key_name = ''K'', creationDate = 5000,
               key_payload = Some (Base64 (Str ''secret''))\<rparr>]
      \<and> delete_targets (calls w') = [])"
  by (simp add: keyprotect_eval createKey_def createKey_try_def parseKeyID_def
        descending_store_def ascending_store_def listing_down_def mint_def)

section \<open>Failures on the mutation paths are thrown\<close>

lemma failed_on_mutation_path_simps [simp]:
  "failed_on_mutation_path (IamToken k, rp) = failed (IamToken k, rp)"
  "failed_on_mutation_path (Http cl DELETE path b, rp) = failed (Http cl DELETE path b, rp)"
  "failed_on_mutation_path (Http cl POST path b, rp) = failed (Http cl POST path b, rp)"
  "failed_on_mutation_path (Http cl GET [] b, rp) = False"
  "failed_on_mutation_path (rq, Ok d) = False"
  by (simp_all add: failed_on_mutation_path_def)














section \<open>A missing configuration field\<close>

lemma missingVar_first:
  "missingVar c = map_option fst (find snd (required_fields c))"
  by (simp add: missingVar_def required_fields_def)

text \<open>
  C5, as the code has it. Every operation validates the configuration inside its try
  block. With \<open>v\<close> the first missing required field, deleteKey and createKey throw an
  Error naming \<open>v\<close> and make no call at all; getKeyByID, getNewestKeyByName and
  getAllKeys called with a client do not fail: their catch blocks log a warning naming
  \<open>v\<close> and return the empty result, again without any call. In each case the world is
  left as it was but for the one log line.
\<close>

theorem missing_config:
  assumes "find snd (required_fields c) = Some (v, True)"
  shows "deleteKey env c keyID w
           = (Inl (Error (''Failed to delete key '' @ keyID @ '' in KeyProtect: '' @ config_error v)),
              log_at ERROR (''Failed to delete key '' @ keyID @ '' in KeyProtect: ''
                              @ config_error v) w)
       \<and> createKey env c keyName keyPayload w
           = (Inl (Error (''Failed to create key in KeyProtect: '' @ config_error v)),
              log_at ERROR (''Failed to create key in KeyProtect: '' @ config_error v) w)
       \<and> getKeyByID env c keyID w
           = (Str [], log_at WARN (''Failed to retrieve key '' @ keyID @ '' from KeyProtect: ''
                                     @ config_error v) w)
       \<and> getNewestKeyByName env c keyName w
           = (Str [], log_at WARN (''Failed to retrieve key '' @ keyName @ '' from KeyProtect: ''
                                     @ config_error v) w)
       \<and> getAllKeys env c (Some cl) w
           = (Inr [], log_at WARN (''Failed to retrieve keys from KeyProtect: '' @ config_error v) w)"
proof -
  from assms have "missingVar c = Some v" by (simp add: missingVar_first)
  then have v: "validateConfig c = Inl (Error (config_error v))"
    by (simp add: validateConfig_def config_error_def)
  show ?thesis
    by (simp add: v deleteKey_def deleteKey_try_def createKey_def createKey_try_def
          getKeyByID_def getKeyByID_try_def getNewestKeyByName_def getNewestKeyByName_try_def
          getAllKeys_def getAllKeysHelper_def Let_def)
qed

text \<open>
  On the unset configuration the first missing field is the URL: deleteKey and
  createKey throw, and the three reads return the empty result, each with the one log
  line and without any call.
\<close>

theorem missing_config_witness:
  "deleteKey keyprotect_service unconfigured ''a'' (start tie_store)
     = (Inl (Error (''Failed to delete key a in KeyProtect: '' @ config_error ''KEYPROTECT_URL'')),
        log_at ERROR (''Failed to delete key a in KeyProtect: '' @ config_error ''KEYPROTECT_URL'')
          (start tie_store))
   \<and> createKey keyprotect_service unconfigured ''K'' (Str ''secret'') (start tie_store)
     = (Inl (Error (''Failed to create key in KeyProtect: '' @ config_error ''KEYPROTECT_URL'')),
        log_at ERROR (''Failed to create key in KeyProtect: '' @ config_error ''KEYPROTECT_URL'')
          (start tie_store))
   \<and> getAllKeys keyprotect_service unconfigured (Some (keyProtectClient unconfigured ''t''))
       (start tie_store)
     = (Inr [],
        log_at WARN (''Failed to retrieve keys from KeyProtect: '' @ config_error ''KEYPROTECT_URL'')
          (start tie_store))"
  using missing_config
    [of unconfigured "''KEYPROTECT_URL''" keyprotect_service "''a''" "start tie_store"
        "''K''" "Str ''secret''" "keyProtectClient unconfigured ''t''"]
  by (simp add: required_fields_def unconfigured_def falsy_str_def)

text \<open>
  C5 as stated fails for the read operations: on the unset configuration getKeyByID
  and getNewestKeyByName return the empty string instead of failing, and getAllKeys,
  called with a client, returns the empty list.
\<close>

theorem missing_config_counterexample:
  "fst (getKeyByID keyprotect_service unconfigured ''a'' (start tie_store)) = Str []
   \<and> fst (getNewestKeyByName keyprotect_service unconfigured ''K'' (start tie_store)) = Str []
   \<and> fst (getAllKeys keyprotect_service unconfigured
            (Some (keyProtectClient unconfigured ''t'')) (start tie_store)) = Inr []"
  by (simp add: keyprotect_eval getKeyByID_def getKeyByID_try_def getNewestKeyByName_def
        getNewestKeyByName_try_def unconfigured_def)

section \<open>Failed reads degrade to empty results\<close>














section \<open>The user reconciliation\<close>

lemmas appid_eval =
  existUserCheckFunc_def existUserCheck_def loginAppID_def appIdMgmtClient_def
  getAllRolesIds_def createUserCloudDirectory_def activateNewUserProfile_def
  updateUserRoles_def updateUserAttributes_def login_request_def
  appId_validateConfig_def appId_missingVar_def falsy_str_def example_appid_def
  start_def call_def log_at_def

lemma loginAppID_calls:
  assumes "loginAppID env c u p w = (r, w')" "appId_validateConfig c = Inr ()"
  shows "\<exists>rp. calls w' = calls w @ [(login_request c u p, rp)]
           \<and> remote w' = snd (env (login_request c u p) (remote w))
           \<and> rp = fst (env (login_request c u p) (remote w))
           \<and> (failed (login_request c u p, rp) \<longleftrightarrow> (\<exists>e. r = Inl e))"
  using assms
  by (auto simp: loginAppID_def login_request_def call_def
           split: sum.splits prod.splits reply.splits)

text \<open>
  C8. When the login request is answered successfully (on a valid configuration),
  \<^verbatim>\<open>existUserCheckFunc\<close> returns without an error after that one call: no token is
  acquired for a management client and no account, role or attribute request is sent;
  \<^verbatim>\<open>existUserCheck\<close> logs the success. Run again in the world it left, with the login
  succeeding again, it again makes the login call only.
\<close>

theorem login_succeeds_no_mutation:
  assumes valid: "appId_validateConfig c = Inr ()"
    and first: "env (login_request c usr pwd) (remote w) = (Ok d, s)"
  shows "\<exists>w'. existUserCheckFunc env c usr pwd w = (None, w')
           \<and> calls w' = calls w @ [(login_request c usr pwd, Ok d)]
           \<and> remote w' = s
           \<and> existUserCheck env c usr pwd w = log_at INFO ''Login was successful!'' w'
           \<and> (\<forall>d2 s2. env (login_request c usr pwd) s = (Ok d2, s2) \<longrightarrow>
                (\<exists>w''. existUserCheckFunc env c usr pwd w' = (None, w'')
                   \<and> calls w'' = calls w @ [(login_request c usr pwd, Ok d),
                                             (login_request c usr pwd, Ok d2)]
                   \<and> remote w'' = s2))"
  using assms
  by (simp add: existUserCheckFunc_def existUserCheck_def loginAppID_def login_request_def
        call_def)

text \<open>A known user on the reference identity service: one login call, nothing else.\<close>

lemma example_appid_valid: "appId_validateConfig example_appid = Inr ()"
  by (simp add: appId_validateConfig_def appId_missingVar_def falsy_str_def example_appid_def)

lemma known_user_login:
  "directory_service (login_request example_appid ''a@b.com'' ''pw'')
     (remote (start known_directory)) = (Ok NoData, known_directory)"
  by (simp add: login_request_def start_def known_directory_def)

theorem login_succeeds_no_mutation_witness:
  "\<exists>w'. existUserCheckFunc directory_service example_appid ''a@b.com'' ''pw''
            (start known_directory) = (None, w')
      \<and> calls w' = calls (start known_directory)
                     @ [(login_request example_appid ''a@b.com'' ''pw'', Ok NoData)]
      \<and> remote w' = known_directory"
  using login_succeeds_no_mutation
    [of example_appid directory_service "''a@b.com''" "''pw''" "start known_directory",
     OF example_appid_valid known_user_login]
  by blast

lemma appIdMgmtClient_calls:
  assumes "appIdMgmtClient env c w = (r, w')" "appId_validateConfig c = Inr ()"
  shows "\<exists>rp. calls w' = calls w @ [(IamToken (appIDObj.apikey c), rp)]
           \<and> (case rp of Fail st t \<Rightarrow> (\<exists>e. r = Inl e)
               | Ok d \<Rightarrow> r = Inr (axClient c (token_of d)))"
  using assms
  by (auto simp: appIdMgmtClient_def split: sum.splits prod.splits reply.splits
           dest!: call_calls)

lemma getAllRolesIds_exact:
  assumes "getAllRolesIds env cl w = (r, w')"
  shows "\<exists>rp. calls w' = calls w @ [(Http cl GET ''/roles'' NoBody, rp)]
           \<and> ((\<exists>ids. rp = Ok (Roles ids) \<and> r = Inr ids)
                \<or> ((\<forall>ids. rp \<noteq> Ok (Roles ids)) \<and> (\<exists>e. r = Inl e)))"
  using assms
  by (auto simp: getAllRolesIds_def split: sum.splits prod.splits reply.splits data.splits
           dest!: call_calls)

lemma createUserCloudDirectory_calls:
  assumes "createUserCloudDirectory env c u p cl w = (r, w')"
  shows "\<exists>rp. calls w' = calls w @ [(Http cl POST ''/cloud_directory/Users''
                                         (NewUser u (userName c) p), rp)]
           \<and> (failed (Http cl POST ''/cloud_directory/Users'' (NewUser u (userName c) p), rp)
                \<longleftrightarrow> (\<exists>e. r = Inl e))"
  using assms
  by (auto simp: createUserCloudDirectory_def split: sum.splits prod.splits reply.splits
           dest!: call_calls)

lemma activateNewUserProfile_exact:
  assumes "activateNewUserProfile env c u p cl w = (r, w')" "appId_validateConfig c = Inr ()"
  shows "(\<exists>st t. calls w' = calls w @ [(login_request c u p, Fail st t)] \<and> (\<exists>e. r = Inl e))
       \<or> (\<exists>d rp. calls w' = calls w @ [(login_request c u p, Ok d), (Http cl GET ''/users'' NoBody, rp)]
             \<and> ((\<exists>us x. rp = Ok (Users us) \<and> find (\<lambda>x. email x = u) us = Some x
                          \<and> r = Inr (user_id x))
                  \<or> ((\<forall>us. rp = Ok (Users us) \<longrightarrow> find (\<lambda>x. email x = u) us = None)
                       \<and> (\<exists>e. r = Inl e))))"
proof -
  let ?w = "log_at DEBUG ''Activating new user profile'' w"
  obtain x w1 where l: "loginAppID env c u p ?w = (x, w1)"
    by (cases "loginAppID env c u p ?w")
  from loginAppID_calls[OF l assms(2)] obtain rp1 where
    c1: "calls w1 = calls w @ [(login_request c u p, rp1)]"
    and f1: "failed (login_request c u p, rp1) \<longleftrightarrow> (\<exists>e. x = Inl e)" by auto
  show ?thesis
  proof (cases x)
    case (Inl e)
    with assms(1) l have "\<exists>e. r = Inl e" "calls w' = calls w1"
      by (auto simp: activateNewUserProfile_def)
    moreover from f1 Inl obtain st t where "rp1 = Fail st t" by (cases rp1) auto
    ultimately show ?thesis using c1 by auto
  next
    case (Inr d)
    with f1 obtain d' where rp1: "rp1 = Ok d'" by (cases rp1) auto
    obtain rp2 w2 where g: "call env (Http cl GET ''/users'' NoBody) w1 = (rp2, w2)"
      by (cases "call env (Http cl GET ''/users'' NoBody) w1")
    from call_calls[OF g] have c2: "calls w2 = calls w1 @ [(Http cl GET ''/users'' NoBody, rp2)]"
      by simp
    from assms(1) l Inr g have "calls w' = calls w2"
      "(\<exists>us x. rp2 = Ok (Users us) \<and> find (\<lambda>x. email x = u) us = Some x \<and> r = Inr (user_id x))
       \<or> ((\<forall>us. rp2 = Ok (Users us) \<longrightarrow> find (\<lambda>x. email x = u) us = None) \<and> (\<exists>e. r = Inl e))"
      by (auto simp: activateNewUserProfile_def
               split: reply.splits data.splits option.splits)
    with c1 c2 rp1 show ?thesis by auto
  qed
qed

lemma updateUserRoles_calls:
  assumes "updateUserRoles env roles uid cl w = (r, w')"
  shows "\<exists>rp. calls w' = calls w @ [(Http cl PUT (''/users/'' @ uid @ ''/roles'') (RoleIds roles), rp)]
           \<and> (failed (Http cl PUT (''/users/'' @ uid @ ''/roles'') (RoleIds roles), rp)
                \<longleftrightarrow> (\<exists>e. r = Inl e))"
  using assms
  by (auto simp: updateUserRoles_def split: sum.splits prod.splits reply.splits
           dest!: call_calls)

lemma updateUserAttributes_calls:
  assumes "updateUserAttributes env c uid cl w = (r, w')"
  shows "\<exists>rp. calls w' = calls w @ [(Http cl PUT (''/users/'' @ uid @ ''/profile'')
                                         (TenantAttr (userTenantID c)), rp)]
           \<and> (failed (Http cl PUT (''/users/'' @ uid @ ''/profile'')
                          (TenantAttr (userTenantID c)), rp)
                \<longleftrightarrow> (\<exists>e. r = Inl e))"
  using assms
  by (auto simp: updateUserAttributes_def split: sum.splits prod.splits reply.splits
           dest!: call_calls)

lemma spec_next_call_no_roles:
  "(\<And>ids. rp \<noteq> Ok (Roles ids)) \<Longrightarrow> spec_next_call c usr pwd [(q1, Ok d), (q2, rp)] = None"
  by (cases rp; cases "case rp of Ok d \<Rightarrow> d") auto

lemma spec_next_call_no_user:
  "(\<And>us. rp = Ok (Users us) \<Longrightarrow> find (\<lambda>x. email x = usr) us = None) \<Longrightarrow>
     spec_next_call c usr pwd [(q1, Ok d), (q2, Ok (Roles ids)), (q3, Ok d3), (q4, Ok d4), (q5, rp)]
       = None"
  by (cases rp; cases "case rp of Ok d \<Rightarrow> d") auto

lemma spec_next_call_done:
  "spec_next_call c usr pwd [x1, x2, x3, x4, x5, x6, x7] = None"
  by (rule spec_next_call.cases[of "(c, usr, pwd, [x1, x2, x3, x4, x5, x6, x7])"]) auto


text \<open>
  C9. For a user whose login is rejected (on a valid configuration), the calls of
  \<^verbatim>\<open>existUserCheckFunc\<close> after the failed login are exactly the provisioning
  sequence in its order, as far as the replies allow: each call made is the one that
  was due after the calls before it, and no call is due after the last one made. So
  the token for the management client is always requested; each further call (the list
  of roles, the new account, the login as the new user, the list of users, the roles,
  the attributes) is made if and only if all calls before it succeeded, the roles
  assigned are the ids that were listed and the user is the listed one with the given
  email; after a failed call nothing more is sent, in particular nothing that would
  undo an earlier step. The function returns no error if and only if all seven calls
  were made and the last one succeeded.
\<close>

theorem provisioning_sequence:
  assumes valid: "appId_validateConfig c = Inr ()"
    and fresh: "fst (env (login_request c usr pwd) (remote w)) = Fail st t"
    and run: "existUserCheckFunc env c usr pwd w = (r, w')"
  shows "\<exists>cs. calls w' = calls w @ (login_request c usr pwd, Fail st t) # cs
      \<and> in_spec_order c usr pwd [] cs
      \<and> (r = None \<longleftrightarrow> length cs = 7 \<and> \<not> failed (last cs))"
proof -
  let ?L = "login_request c usr pwd"
  let ?T = "IamToken (appIDObj.apikey c)"
  let ?G = "\<lambda>cs. calls w' = calls w @ (?L, Fail st t) # cs
      \<and> in_spec_order c usr pwd [] cs
      \<and> (r = None \<longleftrightarrow> length cs = 7 \<and> \<not> failed (last cs))"
  let ?w0 = "log_at DEBUG ''Trying to login with current credentials''
               (log_at DEBUG ''Exist user check starting'' w)"
  obtain x1 w1 where l1: "loginAppID env c usr pwd ?w0 = (x1, w1)"
    by (cases "loginAppID env c usr pwd ?w0")
  from loginAppID_calls[OF l1 valid] fresh obtain e1 where
    c1: "calls w1 = calls w @ [(?L, Fail st t)]" and x1: "x1 = Inl e1" by auto
  let ?w1 = "log_at WARN ''Login failed, creating new user'' w1"
  obtain x2 w2 where l2: "appIdMgmtClient env c ?w1 = (x2, w2)"
    by (cases "appIdMgmtClient env c ?w1")
  from appIdMgmtClient_calls[OF l2 valid] obtain rp2 where
    c2: "calls w2 = calls w1 @ [(?T, rp2)]"
    and k2: "case rp2 of Fail st t \<Rightarrow> (\<exists>e. x2 = Inl e)
             | Ok d \<Rightarrow> x2 = Inr (axClient c (token_of d))" by auto
  show ?thesis
  proof (cases rp2)
    case (Fail st2 t2)
    with k2 obtain e2 where "x2 = Inl e2" by auto
    with run l1 x1 l2 have "r = Some e2" "w' = w2" by (auto simp: existUserCheckFunc_def)
    with c1 c2 Fail have "?G [(?T, rp2)]"
      by simp
    then show ?thesis by blast
  next
    case (Ok d2)
    define cl where "cl = axClient c (token_of d2)"
    from k2 Ok have x2: "x2 = Inr cl" by (simp add: cl_def)
    let ?R3 = "Http cl GET ''/roles'' NoBody"
    obtain x3 w3 where l3: "getAllRolesIds env cl w2 = (x3, w3)"
      by (cases "getAllRolesIds env cl w2")
    from getAllRolesIds_exact[OF l3] obtain rp3 where
      c3: "calls w3 = calls w2 @ [(?R3, rp3)]"
      and k3: "(\<exists>ids. rp3 = Ok (Roles ids) \<and> x3 = Inr ids)
                \<or> ((\<forall>ids. rp3 \<noteq> Ok (Roles ids)) \<and> (\<exists>e. x3 = Inl e))" by auto
    show ?thesis
    proof (cases x3)
      case (Inl e3)
      with k3 have no: "\<And>ids. rp3 \<noteq> Ok (Roles ids)" by auto
      from Inl run l1 x1 l2 x2 l3 have "r = Some e3" "w' = w3"
        by (auto simp: existUserCheckFunc_def)
      with c1 c2 c3 Ok spec_next_call_no_roles[of rp3 c usr pwd ?T d2 ?R3, OF no]
      have "?G [(?T, rp2), (?R3, rp3)]"
        by (simp add: cl_def)
      then show ?thesis by blast
    next
      case (Inr roles)
      with k3 have rp3: "rp3 = Ok (Roles roles)" by auto
      obtain x4 w4 where l4: "createUserCloudDirectory env c usr pwd cl w3 = (x4, w4)"
        by (cases "createUserCloudDirectory env c usr pwd cl w3")
      let ?R4 = "Http cl POST ''/cloud_directory/Users'' (NewUser usr (userName c) pwd)"
      from createUserCloudDirectory_calls[OF l4] obtain rp4 where
        c4: "calls w4 = calls w3 @ [(?R4, rp4)]"
        and k4: "failed (?R4, rp4) \<longleftrightarrow> (\<exists>e. x4 = Inl e)" by auto
      show ?thesis
      proof (cases x4)
        case (Inl e4)
        with k4 obtain st4 t4 where rp4: "rp4 = Fail st4 t4" by (cases rp4) auto
        from Inl run l1 x1 l2 x2 l3 Inr l4 have "r = Some e4" "w' = w4"
          by (auto simp: existUserCheckFunc_def)
        with c1 c2 c3 c4 Ok rp3 rp4
        have "?G [(?T, rp2), (?R3, rp3), (?R4, rp4)]"
          by (simp add: cl_def)
        then show ?thesis by blast
      next
        case created: (Inr u4)
        with k4 obtain d4 where rp4: "rp4 = Ok d4" by (cases rp4) auto
        obtain x5 w5 where l5: "activateNewUserProfile env c usr pwd cl w4 = (x5, w5)"
          by (cases "activateNewUserProfile env c usr pwd cl w4")
        let ?R6 = "Http cl GET ''/users'' NoBody"
        note k5 = activateNewUserProfile_exact[OF l5 valid]
        from run l1 x1 l2 x2 l3 Inr l4 created l5
        have unf: "(r, w') =
          (case x5 of Inl e5 \<Rightarrow> (Some e5, w5)
           | Inr newUserId \<Rightarrow>
               (case updateUserRoles env roles newUserId cl w5 of
                  (Inl e6, w6) \<Rightarrow> (Some e6, w6)
                | (Inr u6, w6) \<Rightarrow>
                    (case updateUserAttributes env c newUserId cl w6 of
                       (Inl e7, w7) \<Rightarrow> (Some e7, w7)
                     | (Inr u7, w7) \<Rightarrow> (None, w7))))"
          by (simp add: existUserCheckFunc_def split: sum.splits prod.splits)
        show ?thesis
        proof (cases x5)
          case (Inl e5)
          with unf have r5: "r = Some e5" "w' = w5" by auto
          from k5 Inl consider
            (login) st5 t5 where "calls w5 = calls w4 @ [(?L, Fail st5 t5)]"
          | (users) d5 rp5 where "calls w5 = calls w4 @ [(?L, Ok d5), (?R6, rp5)]"
              "\<And>us. rp5 = Ok (Users us) \<Longrightarrow> find (\<lambda>x. email x = usr) us = None"
            by auto
          then show ?thesis
          proof cases
            case login
            with r5 c1 c2 c3 c4 Ok rp3 rp4
            have "?G [(?T, rp2), (?R3, rp3), (?R4, rp4), (?L, Fail st5 t5)]"
              by (simp add: cl_def)
            then show ?thesis by blast
          next
            case users
            with r5 c1 c2 c3 c4 Ok rp3 rp4
              spec_next_call_no_user[of rp5 usr c pwd ?T d2 ?R3 roles ?R4 d4 ?L d5 ?R6, OF users(2)]
            have "?G [(?T, rp2), (?R3, rp3), (?R4, rp4), (?L, Ok d5), (?R6, rp5)]"
              by (simp add: cl_def)
            then show ?thesis by blast
          qed
        next
          case (Inr newUserId)
          with k5 obtain d5 us x where
            c5: "calls w5 = calls w4 @ [(?L, Ok d5), (?R6, Ok (Users us))]"
            and found: "find (\<lambda>x. email x = usr) us = Some x" and uid: "newUserId = user_id x"
            by auto
          let ?R7 = "Http cl PUT (''/users/'' @ newUserId @ ''/roles'') (RoleIds roles)"
          let ?R8 = "Http cl PUT (''/users/'' @ newUserId @ ''/profile'')
                       (TenantAttr (userTenantID c))"
          obtain x6 w6 where l6: "updateUserRoles env roles newUserId cl w5 = (x6, w6)"
            by (cases "updateUserRoles env roles newUserId cl w5")
          from updateUserRoles_calls[OF l6] obtain rp6 where
            c6: "calls w6 = calls w5 @ [(?R7, rp6)]"
            and k6: "failed (?R7, rp6) \<longleftrightarrow> (\<exists>e. x6 = Inl e)" by auto
          show ?thesis
          proof (cases x6)
            case (Inl e6)
            with k6 obtain st6 t6 where rp6: "rp6 = Fail st6 t6" by (cases rp6) auto
            from Inl unf Inr l6 have "r = Some e6" "w' = w6" by auto
            with c1 c2 c3 c4 c5 c6 Ok rp3 rp4 rp6 found uid
            have "?G [(?T, rp2), (?R3, rp3), (?R4, rp4), (?L, Ok d5), (?R6, Ok (Users us)),
                      (?R7, rp6)]"
              by (simp add: cl_def)
            then show ?thesis by blast
          next
            case roles_ok: (Inr u6)
            with k6 obtain d6 where rp6: "rp6 = Ok d6" by (cases rp6) auto
            obtain x7 w7 where l7: "updateUserAttributes env c newUserId cl w6 = (x7, w7)"
              by (cases "updateUserAttributes env c newUserId cl w6")
            from updateUserAttributes_calls[OF l7] obtain rp7 where
              c7: "calls w7 = calls w6 @ [(?R8, rp7)]"
              and k7: "failed (?R8, rp7) \<longleftrightarrow> (\<exists>e. x7 = Inl e)" by auto
            from unf Inr l6 roles_ok l7
            have "w' = w7" "r = (case x7 of Inl e \<Rightarrow> Some e | Inr u \<Rightarrow> None)"
              by (auto split: sum.splits)
            with c1 c2 c3 c4 c5 c6 c7 Ok rp3 rp4 rp6 found uid k7
            have "?G [(?T, rp2), (?R3, rp3), (?R4, rp4), (?L, Ok d5), (?R6, Ok (Users us)),
                      (?R7, rp6), (?R8, rp7)]"
              by (cases x7) (auto simp add: cl_def spec_next_call_done)
            then show ?thesis by blast
          qed
        qed
      qed
    qed
  qed
qed

text \<open>
  The complete run on the reference identity service with an empty directory: the
  first login is rejected, and all the calls of the sequence follow and succeed.
\<close>

lemma unknown_user_login:
  "fst (directory_service (login_request example_appid ''a@b.com'' ''pw'')
          (remote (start empty_directory))) = Fail (Some 400) ''invalid_grant''"
  by (simp add: login_request_def start_def empty_directory_def)

lemma fresh_user_run:
  "\<exists>w'. existUserCheckFunc directory_service example_appid ''a@b.com'' ''pw''
           (start empty_directory) = (None, w')
        \<and> calls w' = (login_request example_appid ''a@b.com'' ''pw'',
                        Fail (Some 400) ''invalid_grant'') # fresh_user_calls"
  by (simp add: appid_eval empty_directory_def fresh_user_calls_def axClient_def)

theorem provisioning_sequence_witness:
  "in_spec_order example_appid ''a@b.com'' ''pw'' [] fresh_user_calls
   \<and> calls (snd (existUserCheckFunc directory_service example_appid ''a@b.com'' ''pw''
                   (start empty_directory)))
       = (login_request example_appid ''a@b.com'' ''pw'', Fail (Some 400) ''invalid_grant'')
         # fresh_user_calls"
  using provisioning_sequence
    [of example_appid directory_service "''a@b.com''" "''pw''" "start empty_directory",
     OF example_appid_valid unknown_user_login prod.collapse[symmetric]]
    fresh_user_run
  by (auto simp: start_def)

text \<open>
  C9 as stated leaves out a remote call: the call after the rejected login goes to the
  credential provider, for the token of the management client, and the list of roles
  comes third. The run makes eight calls, not seven.
\<close>

theorem provisioning_sequence_counterexample:
  "\<exists>w'. existUserCheckFunc directory_service example_appid ''a@b.com'' ''pw''
           (start empty_directory) = (None, w')
        \<and> map fst (calls w')
            = [login_request example_appid ''a@b.com'' ''pw'',
               IamToken (appIDObj.apikey example_appid),
               Http (axClient example_appid ''mgmt-token'') GET ''/roles'' NoBody,
               Http (axClient example_appid ''mgmt-token'') POST ''/cloud_directory/Users''
                 (NewUser ''a@b.com'' (userName example_appid) ''pw''),
               login_request example_appid ''a@b.com'' ''pw'',
               Http (axClient example_appid ''mgmt-token'') GET ''/users'' NoBody,
               Http (axClient example_appid ''mgmt-token'') PUT ''/users/id-a@b.com/roles''
                 (RoleIds [''role-1'', ''role-2'']),
               Http (axClient example_appid ''mgmt-token'') PUT ''/users/id-a@b.com/profile''
                 (TenantAttr (userTenantID example_appid))]"
  using fresh_user_run by (auto simp: fresh_user_calls_def)

section \<open>The retry policy of the library's clients\<close>

lemma library_clients_ranges:
  "cl \<in> {keyProtectClient kc token, appIdLoginClient ac, axClient ac token'} \<Longrightarrow>
     statusCodesToRetry (rax cl) = [(500, 599)]"
  by (auto simp: keyProtectClient_def appIdLoginClient_def axClient_def appId_raxConfig_def)

lemma shouldRetry_5xx:
  "statusCodesToRetry cfg = [(500, 599)] \<Longrightarrow> shouldRetry dflt cfg m r j \<Longrightarrow>
     no_response_or_5xx r"
  by (cases r) (auto simp: shouldRetry_def in_ranges_def)

lemma attempts_retried:
  "attempts dflt wire cl m path b k n s = (rs, s') \<Longrightarrow>
     rs \<noteq> [] \<and> length rs \<le> Suc k
     \<and> hd rs = fst (wire (Http cl m path b) s)
     \<and> (\<forall>r\<in>set (butlast rs). \<exists>j. shouldRetry dflt (rax cl) m r j)"
proof (induction k arbitrary: n s rs s')
  case 0
  then show ?case by (auto split: prod.splits)
next
  case (Suc k)
  obtain r s1 where w: "wire (Http cl m path b) s = (r, s1)"
    by (cases "wire (Http cl m path b) s")
  show ?case
  proof (cases "shouldRetry dflt (rax cl) m r n")
    case False
    with Suc.prems w show ?thesis by auto
  next
    case True
    obtain rs1 s2 where a: "attempts dflt wire cl m path b k (Suc n) s1 = (rs1, s2)"
      by (cases "attempts dflt wire cl m path b k (Suc n) s1")
    with Suc.prems w True have rs: "rs = r # rs1" by auto
    from Suc.IH[OF a] have "rs1 \<noteq> []" "length rs1 \<le> Suc k"
      "\<forall>r\<in>set (butlast rs1). \<exists>j. shouldRetry dflt (rax cl) m r j" by auto
    with rs True w show ?thesis by auto
  qed
qed

lemma attempts_not_retried:
  "\<not> shouldRetry dflt (rax cl) m (fst (wire (Http cl m path b) s)) n \<Longrightarrow>
     attempts dflt wire cl m path b k n s
       = ([fst (wire (Http cl m path b) s)], snd (wire (Http cl m path b) s))"
  by (cases k) (auto split: prod.splits)

text \<open>
  C3. For the three clients the library builds (keyProtectClient, appIdLoginClient and
  the management client of appIdMgmtClient), whatever the library's defaults and the
  wire: every attempt that was followed by a retry had no response or a status in
  500-599, and a request whose first response has a 4xx status is attempted once.
\<close>

theorem retry_only_without_response_or_5xx:
  assumes cl: "cl \<in> {keyProtectClient kc token, appIdLoginClient ac, axClient ac token'}"
    and run: "send_request dflt wire cl m path b s = (rs, s')"
  shows "(\<forall>r\<in>set (butlast rs). no_response_or_5xx r)
       \<and> (\<forall>st d t. fst (wire (Http cl m path b) s) = Response st d t \<and> 400 \<le> st \<and> st \<le> 499
             \<longrightarrow> rs = [Response st d t])"
proof (intro conjI allI impI ballI)
  fix r assume "r \<in> set (butlast rs)"
  with attempts_retried[OF run[unfolded send_request_def]]
  obtain j where "shouldRetry dflt (rax cl) m r j" by blast
  with library_clients_ranges[OF cl] show "no_response_or_5xx r" by (rule shouldRetry_5xx)
next
  fix st d t
  assume a: "fst (wire (Http cl m path b) s) = Response st d t \<and> 400 \<le> st \<and> st \<le> 499"
  then have "\<not> no_response_or_5xx (fst (wire (Http cl m path b) s))" by simp
  with shouldRetry_5xx[OF library_clients_ranges[OF cl]]
  have "\<not> shouldRetry dflt (rax cl) m (fst (wire (Http cl m path b) s)) 0" by blast
  from attempts_not_retried[of dflt cl m wire path b s 0, OF this] run a
  show "rs = [Response st d t]"
    by (simp add: send_request_def)
qed

text \<open>A key that is not found: one attempt.\<close>

lemma example_client:
  "keyProtectClient example_config ''t''
     \<in> {keyProtectClient example_config ''t'', appIdLoginClient example_appid,
        axClient example_appid ''t''}"
  by simp

theorem retry_only_without_response_or_5xx_witness:
  "fst (send_request example_defaults always_404 (keyProtectClient example_config ''t'')
          GET ''missing'' NoBody ())
     = [Response 404 NoData ''Not Found'']"
  using retry_only_without_response_or_5xx
    [of "keyProtectClient example_config ''t''" example_config "''t''" example_appid "''t''"
        example_defaults always_404 GET "''missing''" NoBody "()",
     OF example_client prod.collapse[symmetric]]
  by (simp add: always_404_def)

text \<open>
  The part of C4 that holds: against an endpoint that always answers 5xx the two AppID
  clients make \<open>appId_retries + 1\<close> attempts, pause the fixed \<open>appId_retryDelay\<close> in
  between, and settle with the last failure.
\<close>

lemma attempts_always_5xx:
  assumes ranges: "statusCodesToRetry (rax cl) = [(500, 599)]"
    and meth: "m \<in> set (retry_methods dflt (rax cl))"
    and always: "always_5xx wire (Http cl m path b)"
  shows "n + k = retry_count dflt (rax cl) \<Longrightarrow>
     attempts dflt wire cl m path b k n s = (rs, s') \<Longrightarrow>
       length rs = Suc k \<and> (\<forall>r\<in>set rs. \<exists>st d t. r = Response st d t \<and> 500 \<le> st \<and> st \<le> 599)"
proof (induction k arbitrary: n s rs s')
  case 0
  with always[unfolded always_5xx_def, rule_format, of s] show ?case
    by (auto split: prod.splits)
next
  case (Suc k)
  obtain r s1 where w: "wire (Http cl m path b) s = (r, s1)"
    by (cases "wire (Http cl m path b) s")
  with always[unfolded always_5xx_def, rule_format, of s]
  obtain st d t where r: "r = Response st d t" "500 \<le> st" "st \<le> 599" by auto
  with Suc.prems(1) ranges meth have sr: "shouldRetry dflt (rax cl) m r n"
    by (simp add: shouldRetry_def in_ranges_def)
  obtain rs1 s2 where a: "attempts dflt wire cl m path b k (Suc n) s1 = (rs1, s2)"
    by (cases "attempts dflt wire cl m path b k (Suc n) s1")
  with Suc.prems(2) w sr have rs: "rs = r # rs1" by auto
  from Suc.prems(1) have "Suc n + k = retry_count dflt (rax cl)" by simp
  from Suc.IH[OF this a] rs r show ?case by auto
qed

lemma appId_always_5xx:
  assumes cl: "cl \<in> {appIdLoginClient ac, axClient ac token}"
    and meth: "m \<in> {POST, GET, HEAD, PUT}"
    and always: "always_5xx wire (Http cl m path b)"
    and run: "send_request dflt wire cl m path b s = (rs, s')"
  shows "length rs = appId_retries + 1
       \<and> pauses dflt cl rs = [Fixed appId_retryDelay]
       \<and> (\<exists>st t. settle (last rs) = Fail (Some st) t \<and> 500 \<le> st \<and> st \<le> 599)"
proof -
  from cl have rx: "rax cl = appId_raxConfig"
    by (auto simp: appIdLoginClient_def axClient_def)
  have ranges: "statusCodesToRetry (rax cl) = [(500, 599)]"
    and m: "m \<in> set (retry_methods dflt (rax cl))"
    and rc: "retry_count dflt (rax cl) = 1"
    using meth by (auto simp: rx appId_raxConfig_def retry_methods_def retry_count_def
        appId_retries_def)
  from attempts_always_5xx[OF ranges m always, of 0 1 s rs s'] rc run
  have len: "length rs = 2"
    and all: "\<forall>r\<in>set rs. \<exists>st d t. r = Response st d t \<and> 500 \<le> st \<and> st \<le> 599"
    by (auto simp: send_request_def)
  from len have "rs \<noteq> []" by auto
  then have "last rs \<in> set rs" by (rule last_in_set)
  with all obtain st d t where "last rs = Response st d t" "500 \<le> st" "st \<le> 599" by blast
  then have "\<exists>st t. settle (last rs) = Fail (Some st) t \<and> 500 \<le> st \<and> st \<le> 599" by auto
  moreover have "pauses dflt cl rs = [Fixed appId_retryDelay]"
    by (simp add: pauses_def len pause_before_def backoff_policy_def rx appId_raxConfig_def)
  ultimately show ?thesis using len by (simp add: appId_retries_def)
qed

lemmas engine_eval =
  send_request_def pauses_def pause_before_def backoff_policy_def retry_count_def
  noResponse_count_def retry_methods_def shouldRetry_def in_ranges_def
  keyProtectClient_def appIdLoginClient_def axClient_def appId_raxConfig_def
  appId_retries_def appId_retryDelay_def example_defaults_def example_config_def

text \<open>
  C4 at the KeyProtect client. Its \<^verbatim>\<open>raxConfig\<close> sets \<^verbatim>\<open>retryDelay\<close> but no
  \<^verbatim>\<open>backoffType\<close>, so the default policy applies: against an endpoint that always
  answers 503 it makes the three attempts (two retries), but the pauses between them
  are computed by the exponential policy, not the configured 500 ms. The login client
  of AppID, which sets the static policy, pauses its 3000 ms.
\<close>

theorem keyProtectClient_backoff_evaluation:
  "fst (send_request example_defaults always_503 (keyProtectClient example_config ''t'')
          GET [] NoBody ())
     = replicate 3 (Response 503 NoData ''Service Unavailable'')
   \<and> pauses example_defaults (keyProtectClient example_config ''t'')
        (replicate 3 (Response 503 NoData ''Service Unavailable''))
     = [Computed Exponential 0, Computed Exponential 1]
   \<and> fst (send_request example_defaults always_503 (appIdLoginClient example_appid)
          POST ''/'' (LoginForm ''a@b.com'' ''pw'') ())
     = replicate 2 (Response 503 NoData ''Service Unavailable'')
   \<and> pauses example_defaults (appIdLoginClient example_appid)
        (replicate 2 (Response 503 NoData ''Service Unavailable''))
     = [Fixed 3000]"
  by (simp add: engine_eval always_503_def numeral_2_eq_2 numeral_3_eq_3 upt_rec)

section \<open>The Cloudant singleton\<close>

lemma module_log_fields [simp]:
  "instance' (module_log l msg m) = instance' m"
  "cloudant (module_log l msg m) = cloudant m"
  "allocated (module_log l msg m) = allocated m"
  "cloudantObj (module_log l msg m) = cloudantObj m"
  by (simp_all add: module_log_def)

lemma initCloudant_fields:
  "initCloudant m = (r, m1) \<Longrightarrow>
     instance' m1 = instance' m \<and> cloudant m1 = cloudant m \<and> allocated m1 = allocated m"
  by (auto simp: initCloudant_def split: option.splits if_splits)

lemma step_facts:
  assumes "step x m = (r, m1)" "instance_allocated m"
  shows "instance_allocated m1"
    and "instance' m = Some a \<Longrightarrow> instance' m1 = Some a"
    and "r = Returned_instance b \<Longrightarrow> instance' m1 = Some b"
    and "allocated m \<le> allocated m1"
    and "(a < allocated m \<longrightarrow> cloudant m a = None) \<Longrightarrow> (x, r) \<noteq> (SetupCloudant a, Returned)
           \<Longrightarrow> (a < allocated m1 \<longrightarrow> cloudant m1 a = None)"
    and "a < allocated m \<Longrightarrow> cloudant m a \<noteq> None \<Longrightarrow> cloudant m1 a \<noteq> None"
    and "(x, r) = (SetupCloudant a, Returned) \<Longrightarrow> a < allocated m1 \<and> cloudant m1 a \<noteq> None"
proof -
  show "instance_allocated m1"
    using assms
    by (cases x)
       (auto simp: instance_allocated_def getInstance_def new_CloudantHelperLib_def
          setupCloudant_def Let_def
          split: option.splits if_splits prod.splits sum.splits dest!: initCloudant_fields)
  show "instance' m = Some a \<Longrightarrow> instance' m1 = Some a"
    using assms
    by (cases x)
       (auto simp: instance_allocated_def getInstance_def new_CloudantHelperLib_def
          setupCloudant_def Let_def
          split: option.splits if_splits prod.splits sum.splits dest!: initCloudant_fields)
  show "r = Returned_instance b \<Longrightarrow> instance' m1 = Some b"
    using assms
    by (cases x)
       (auto simp: instance_allocated_def getInstance_def new_CloudantHelperLib_def
          setupCloudant_def Let_def
          split: option.splits if_splits prod.splits sum.splits dest!: initCloudant_fields)
  show "allocated m \<le> allocated m1"
    using assms
    by (cases x)
       (auto simp: instance_allocated_def getInstance_def new_CloudantHelperLib_def
          setupCloudant_def Let_def
          split: option.splits if_splits prod.splits sum.splits dest!: initCloudant_fields)
  show "(a < allocated m \<longrightarrow> cloudant m a = None) \<Longrightarrow> (x, r) \<noteq> (SetupCloudant a, Returned)
           \<Longrightarrow> (a < allocated m1 \<longrightarrow> cloudant m1 a = None)"
    using assms
    by (cases x)
       (auto simp: instance_allocated_def getInstance_def new_CloudantHelperLib_def
          setupCloudant_def Let_def
          split: option.splits if_splits prod.splits sum.splits dest!: initCloudant_fields)
  show "a < allocated m \<Longrightarrow> cloudant m a \<noteq> None \<Longrightarrow> cloudant m1 a \<noteq> None"
    using assms
    by (cases x)
       (auto simp: instance_allocated_def getInstance_def new_CloudantHelperLib_def
          setupCloudant_def Let_def
          split: option.splits if_splits prod.splits sum.splits dest!: initCloudant_fields)
  show "(x, r) = (SetupCloudant a, Returned) \<Longrightarrow> a < allocated m1 \<and> cloudant m1 a \<noteq> None"
    using assms
    by (auto simp: instance_allocated_def setupCloudant_def Let_def
          split: option.splits if_splits prod.splits sum.splits dest!: initCloudant_fields)
qed


lemma run_facts:
  "run ops m = (rs, m') \<Longrightarrow> instance_allocated m \<Longrightarrow>
     length rs = length ops \<and> instance_allocated m' \<and> allocated m \<le> allocated m'
     \<and> (\<forall>a. instance' m = Some a \<longrightarrow> instance' m' = Some a)
     \<and> (\<forall>b. Returned_instance b \<in> set rs \<longrightarrow> instance' m' = Some b)
     \<and> (\<forall>a. (a < allocated m \<longrightarrow> cloudant m a = None)
              \<and> (SetupCloudant a, Returned) \<notin> set (zip ops rs)
            \<longrightarrow> (a < allocated m' \<longrightarrow> cloudant m' a = None))
     \<and> (\<forall>a. a < allocated m \<and> cloudant m a \<noteq> None \<longrightarrow> cloudant m' a \<noteq> None)
     \<and> (\<forall>a. (SetupCloudant a, Returned) \<in> set (zip ops rs)
            \<longrightarrow> a < allocated m' \<and> cloudant m' a \<noteq> None)"
proof (induction ops arbitrary: m rs m')
  case Nil
  then show ?case by auto
next
  case (Cons x xs)
  obtain r m1 where s: "step x m = (r, m1)" by (cases "step x m")
  obtain rs1 m2 where t: "run xs m1 = (rs1, m2)" by (cases "run xs m1")
  from Cons.prems s t have rs: "rs = r # rs1" and m': "m' = m2" by auto
  note S = step_facts[OF s Cons.prems(2)]
  from Cons.IH[OF t S(1)] have IH:
    "length rs1 = length xs" "instance_allocated m2" "allocated m1 \<le> allocated m2"
    "\<And>a. instance' m1 = Some a \<Longrightarrow> instance' m2 = Some a"
    "\<And>b. Returned_instance b \<in> set rs1 \<Longrightarrow> instance' m2 = Some b"
    "\<And>a. (a < allocated m1 \<longrightarrow> cloudant m1 a = None) \<Longrightarrow>
          (SetupCloudant a, Returned) \<notin> set (zip xs rs1) \<Longrightarrow>
          (a < allocated m2 \<longrightarrow> cloudant m2 a = None)"
    "\<And>a. a < allocated m1 \<Longrightarrow> cloudant m1 a \<noteq> None \<Longrightarrow> cloudant m2 a \<noteq> None"
    "\<And>a. (SetupCloudant a, Returned) \<in> set (zip xs rs1) \<Longrightarrow>
          a < allocated m2 \<and> cloudant m2 a \<noteq> None"
    by blast+
  have 1: "length rs = length (x # xs)" using rs IH(1) by simp
  have 2: "instance_allocated m'" using m' IH(2) by simp
  have 3: "allocated m \<le> allocated m'" using m' IH(3) S(4) by simp
  have 4: "instance' m' = Some a" if "instance' m = Some a" for a
    using that S(2) IH(4) m' by blast
  have 5: "instance' m' = Some b" if "Returned_instance b \<in> set rs" for b
  proof (cases "r = Returned_instance b")
    case True
    from S(3)[OF True] IH(4) m' show ?thesis by blast
  next
    case False
    with that rs have "Returned_instance b \<in> set rs1" by auto
    from IH(5)[OF this] m' show ?thesis by simp
  qed
  have 6: "a < allocated m' \<longrightarrow> cloudant m' a = None"
    if "a < allocated m \<longrightarrow> cloudant m a = None"
      "(SetupCloudant a, Returned) \<notin> set (zip (x # xs) rs)" for a
  proof -
    from that(2) rs have n1: "(x, r) \<noteq> (SetupCloudant a, Returned)"
      and n2: "(SetupCloudant a, Returned) \<notin> set (zip xs rs1)" by auto
    from S(5)[OF that(1) n1] have "a < allocated m1 \<longrightarrow> cloudant m1 a = None" .
    from IH(6)[OF this n2] m' show ?thesis by simp
  qed
  have 7: "cloudant m' a \<noteq> None" if "a < allocated m" "cloudant m a \<noteq> None" for a
  proof -
    from S(6)[OF that] have "cloudant m1 a \<noteq> None" .
    moreover from that(1) S(4) have "a < allocated m1" by simp
    ultimately show ?thesis using IH(7) m' by blast
  qed
  have 8: "a < allocated m' \<and> cloudant m' a \<noteq> None"
    if "(SetupCloudant a, Returned) \<in> set (zip (x # xs) rs)" for a
  proof (cases "(x, r) = (SetupCloudant a, Returned)")
    case True
    from S(7)[OF True] have "a < allocated m1" "cloudant m1 a \<noteq> None" by auto
    with IH(3) IH(7) m' show ?thesis by auto
  next
    case False
    with that rs have "(SetupCloudant a, Returned) \<in> set (zip xs rs1)" by auto
    from IH(8)[OF this] m' show ?thesis by simp
  qed
  from 1 2 3 4 5 6 7 8 show ?case by blast
qed

text \<open>
  C10. After any sequence of calls on the module (getInstance with a configuration
  object or without one, the constructor, setupCloudant on an object in use), started
  from the freshly loaded module: all getInstance calls that returned, returned the same
  object; and if one has returned an object on which no setupCloudant call has
  succeeded, a further getInstance call that passes a configuration object throws the
  object with status 500, whereas after a successful setupCloudant on it such a call
  returns it.
\<close>

theorem getInstance_singleton_trapdoor:
  assumes "run ops module_start = (rs, m)"
  shows "(\<forall>a b. Returned_instance a \<in> set rs \<and> Returned_instance b \<in> set rs \<longrightarrow> a = b)
     \<and> (\<forall>a d. Returned_instance a \<in> set rs \<and> (SetupCloudant a, Returned) \<notin> set (zip ops rs)
            \<longrightarrow> fst (getInstance (Some d) m) = Inl (Status500 not_initialized))
     \<and> (\<forall>a d. Returned_instance a \<in> set rs \<and> (SetupCloudant a, Returned) \<in> set (zip ops rs)
            \<longrightarrow> fst (getInstance (Some d) m) = Inr a)"
proof -
  have start: "instance_allocated module_start"
    by (simp add: instance_allocated_def module_start_def)
  note R = run_facts[OF assms start]
  have inst: "instance' m = Some a" if "Returned_instance a \<in> set rs" for a
    using R that by blast
  have alloc: "a < allocated m" if "Returned_instance a \<in> set rs" for a
    using inst[OF that] R by (auto simp: instance_allocated_def)
  have uniq: "a = b" if "Returned_instance a \<in> set rs" "Returned_instance b \<in> set rs" for a b
    using inst[OF that(1)] inst[OF that(2)] by simp
  have trap: "fst (getInstance (Some d) m) = Inl (Status500 not_initialized)"
    if "Returned_instance a \<in> set rs" "(SetupCloudant a, Returned) \<notin> set (zip ops rs)" for a d
  proof -
    have "a < allocated module_start \<longrightarrow> cloudant module_start a = None"
      by (simp add: module_start_def)
    with R that(2) have "a < allocated m \<longrightarrow> cloudant m a = None" by blast
    with alloc[OF that(1)] have "cloudant m a = None" by simp
    with inst[OF that(1)] show ?thesis
      by (simp add: getInstance_def Let_def not_initialized_def)
  qed
  have ready: "fst (getInstance (Some d) m) = Inr a"
    if "Returned_instance a \<in> set rs" "(SetupCloudant a, Returned) \<in> set (zip ops rs)" for a d
  proof -
    from R that(2) have "cloudant m a \<noteq> None" by blast
    with inst[OF that(1)] show ?thesis
      by (auto simp: getInstance_def Let_def)
  qed
  from uniq trap ready show ?thesis by blast
qed

text \<open>
  The second getInstance call with a configuration object, without a setup in between,
  throws the object with status 500.
\<close>

lemma example_run:
  "run [GetInstance (Some example_db)] module_start
     = ([Returned_instance 0],
        \<lparr>cloudantObj = Some example_db, instance' = Some 0, cloudant = (\<lambda>a. None)(0 := None),
          allocated = Suc 0, module_logs = []\<rparr>)"
  by (simp add: getInstance_def new_CloudantHelperLib_def module_start_def Let_def)

lemma example_run_collapsed:
  "run [GetInstance (Some example_db)] module_start
     = ([Returned_instance 0], snd (run [GetInstance (Some example_db)] module_start))"
  by (simp only: example_run snd_conv)

theorem getInstance_singleton_trapdoor_witness:
  "fst (getInstance (Some example_db) (snd (run [GetInstance (Some example_db)] module_start)))
     = Inl (Status500 not_initialized)"
  using getInstance_singleton_trapdoor [OF example_run_collapsed]
  by simp

text \<open>
  A getInstance call without a configuration object, made when the instance exists and
  no setupCloudant has succeeded on it, throws the TypeError of \<^verbatim>\<open>Object.assign\<close>:
  an Error with no status, not the object with status 500; the call writes no log
  line.
\<close>

theorem getInstance_without_configuration_counterexample:
  "run [GetInstance (Some example_db), GetInstance None] module_start
     = ([Returned_instance 0, Thrown (Error ''Cannot convert undefined or null to object'')],
        \<lparr>cloudantObj = Some example_db, instance' = Some 0, cloudant = (\<lambda>a. None)(0 := None),
          allocated = Suc 0, module_logs = []\<rparr>)"
  by (simp add: getInstance_def new_CloudantHelperLib_def module_start_def Let_def
        cannot_convert_def)

end
